theory Spec2Isabelle
  imports Main "HOL-Library.Char_ord" "HOL-Library.List_Lexorder" "HOL-Library.Sublist"
    "HOL-Library.AList"
begin

section \<open>Python strings over the code points 0..255\<close>

text \<open>
  A Python \<open>str\<close> is a sequence of code points. The model covers the code points
  0..255 (ASCII and Latin-1), one \<open>char\<close> each, so \<open>length\<close> counts what Python's
  \<open>len\<close> counts. The three classifications below are those of CPython on that range:
  \<open>str.isspace\<close> (also the regex class \<open>\s\<close> and what \<open>str.strip\<close> removes),
  the regex class \<open>\w\<close> on \<open>str\<close> patterns (alphanumeric or underscore), and
  \<open>str.lower\<close>.
\<close>

definition is_space :: "char \<Rightarrow> bool" where
  "is_space c = (let n = (of_char c :: nat) in
     (9 \<le> n \<and> n \<le> 13) \<or> (28 \<le> n \<and> n \<le> 32) \<or> n = 133 \<or> n = 160)"

definition is_word :: "char \<Rightarrow> bool" where
  "is_word c = (let n = (of_char c :: nat) in
     (48 \<le> n \<and> n \<le> 57) \<or> (65 \<le> n \<and> n \<le> 90) \<or> n = 95 \<or> (97 \<le> n \<and> n \<le> 122)
     \<or> n = 170 \<or> n = 178 \<or> n = 179 \<or> n = 181 \<or> n = 185 \<or> n = 186
     \<or> (188 \<le> n \<and> n \<le> 190) \<or> (192 \<le> n \<and> n \<le> 214) \<or> (216 \<le> n \<and> n \<le> 246)
     \<or> (248 \<le> n \<and> n \<le> 255))"

definition lower_char :: "char \<Rightarrow> char" where
  "lower_char c = (let n = (of_char c :: nat) in
     if (65 \<le> n \<and> n \<le> 90) \<or> (192 \<le> n \<and> n \<le> 214) \<or> (216 \<le> n \<and> n \<le> 222)
     then char_of (n + 32) else c)"

definition lower :: "string \<Rightarrow> string" where
  "lower s = map lower_char s"

text \<open>\<open>s.strip()\<close>: whitespace removed from both ends.\<close>

definition strip :: "string \<Rightarrow> string" where
  "strip s = rev (dropWhile is_space (rev (dropWhile is_space s)))"

text \<open>
  The HTML content of a post is a string the program extends by a block of its own
  that holds a code point beyond 255, so a content string is a list of code points of
  any size; \<open>ustr\<close> reads a string of the range 0..255 as such a list.
\<close>

type_synonym ustring = "nat list"

definition ustr :: "string \<Rightarrow> ustring" where
  "ustr s = map of_char s"

section \<open>generator.py: slugify\<close>

definition hyphen :: char where
  "hyphen = CHR ''-''"

definition underscore :: char where
  "underscore = CHR ''_''"

definition newline :: char where
  "newline = CHR 0x0A"

text \<open>\<open>re.sub(r"[^\w\s-]", "", text)\<close>: every character outside the class is deleted.\<close>

definition strip_nonword :: "string \<Rightarrow> string" where
  "strip_nonword s = filter (\<lambda>c. is_word c \<or> is_space c \<or> c = hyphen) s"

definition is_sep :: "char \<Rightarrow> bool" where
  "is_sep c = (is_space c \<or> c = underscore \<or> c = hyphen)"

text \<open>\<open>re.sub(r"[\s_-]+", "-", text)\<close>: each maximal run of separators becomes one hyphen.\<close>

function collapse_seps :: "string \<Rightarrow> string" where
  "collapse_seps [] = []"
| "collapse_seps (c # cs) =
     (if is_sep c then hyphen # collapse_seps (dropWhile is_sep cs)
      else c # collapse_seps cs)"
  by pat_completeness auto
termination
  by (relation "measure length") (auto simp: length_dropWhile_le less_Suc_eq_le)

text \<open>
  \<open>re.sub(r"^-+|-+$", "", text)\<close>: the hyphens at the start go; so do the hyphens at the
  end, where \<open>$\<close> (no MULTILINE flag) is the end of the string or the place just before a
  final newline.
\<close>

definition rstrip_hyphens :: "string \<Rightarrow> string" where
  "rstrip_hyphens s = rev (dropWhile (\<lambda>c. c = hyphen) (rev s))"

definition trim_hyphens :: "string \<Rightarrow> string" where
  "trim_hyphens s =
     (let s1 = dropWhile (\<lambda>c. c = hyphen) s in
      if s1 \<noteq> [] \<and> last s1 = newline then rstrip_hyphens (butlast s1) @ [newline]
      else rstrip_hyphens s1)"

definition slugify :: "string \<Rightarrow> string" where
  "slugify text =
     (let t1 = strip (lower text);
          t2 = strip_nonword t1;
          t3 = collapse_seps t2;
          t4 = trim_hyphens t3
      in take 80 t4)"


subsection \<open>The shape of a slug\<close>

text \<open>
  A slug character is a hyphen or a lower-cased alphanumeric; \<open>sep_ok\<close> says that no
  two separators are adjacent.
\<close>

definition slug_char :: "char \<Rightarrow> bool" where
  "slug_char c = (c = hyphen \<or> (is_word c \<and> c \<noteq> underscore \<and> lower_char c = c))"

fun sep_ok :: "string \<Rightarrow> bool" where
  "sep_ok [] = True"
| "sep_ok [c] = True"
| "sep_ok (c # d # cs) = (\<not> (is_sep c \<and> is_sep d) \<and> sep_ok (d # cs))"



section \<open>fetcher.py\<close>

text \<open>The Article Record built by both fetchers (the key \<open>"from"\<close> is \<open>origin\<close> here).\<close>

record article =
  title :: string
  summary :: string
  url :: string
  source :: string
  published :: string
  content :: string
  origin :: string

subsection \<open>fetch\_from\_rss\<close>

text \<open>
  What \<open>feedparser\<close> hands over. An instant is a number of microseconds since the
  epoch, in UTC (\<open>datetime\<close> values with \<open>tzinfo=timezone.utc\<close> compare as such);
  \<open>published_parsed\<close> is \<open>None\<close> when the attribute is missing or falsy. A key that
  the entry lacks reads as the empty string, which is what \<open>entry.get(k, "")\<close> returns.
  \<open>feed_title\<close> is \<open>feed.feed.get("title")\<close>.
\<close>

record entry =
  published_parsed :: "int option"
  entry_title :: string
  entry_summary :: string
  entry_description :: string
  entry_link :: string

record feed =
  feed_title :: "string option"
  entries :: "entry list"

text \<open>\<open>feedparser.parse(feed_url)\<close> returns a feed or raises.\<close>

datatype parse_result = Parsed feed | ParseError

definition rss_max_articles :: nat where
  "rss_max_articles = 5"

definition one_day :: int where
  "one_day = 86400 * 1000000"

text \<open>\<open>re.sub(r"<[^>]+>", "", summary)\<close>: a tag is \<open><\<close>, at least one character other
  than \<open>>\<close>, then \<open>>\<close>; a \<open><\<close> that opens no tag stays.\<close>

definition lt_char :: char where
  "lt_char = CHR ''<''"

definition gt_char :: char where
  "gt_char = CHR ''>''"

function strip_tags :: "string \<Rightarrow> string" where
  "strip_tags [] = []"
| "strip_tags (c # cs) =
     (if c = lt_char \<and> takeWhile (\<lambda>d. d \<noteq> gt_char) cs \<noteq> []
         \<and> dropWhile (\<lambda>d. d \<noteq> gt_char) cs \<noteq> []
      then strip_tags (tl (dropWhile (\<lambda>d. d \<noteq> gt_char) cs))
      else c # strip_tags cs)"
  by pat_completeness auto
termination
proof (relation "measure length")
  show "wf (measure length)" by simp
next
  fix c :: char and cs :: string
  have "length (tl (dropWhile (\<lambda>d. d \<noteq> gt_char) cs)) \<le> length cs"
    using length_dropWhile_le [of "\<lambda>d. d \<noteq> gt_char" cs] by simp
  then show "(tl (dropWhile (\<lambda>d. d \<noteq> gt_char) cs), c # cs) \<in> measure length"
    by simp
next
  fix c :: char and cs :: string
  show "(cs, c # cs) \<in> measure length" by simp
qed

text \<open>
  The body of the loop over \<open>feed.entries[:max_per_feed]\<close>: an entry dated before the
  cutoff is skipped; an entry without a date passes the test (\<open>if pub and pub < cutoff\<close>)
  and is emitted with an empty \<open>published\<close>. \<open>isoformat\<close> is the library's
  \<open>datetime.isoformat\<close>. The test \<open>if title and summary\<close> reads the stripped
  summary, which is the \<open>content\<close> field of the record.
\<close>

definition entry_article :: "(int \<Rightarrow> string) \<Rightarrow> string \<Rightarrow> entry \<Rightarrow> article" where
  "entry_article isoformat src e =
     (let summ = strip (strip_tags
            (if entry_summary e \<noteq> [] then entry_summary e else entry_description e))
      in \<lparr> title = strip (entry_title e),
           summary = take 500 summ,
           url = entry_link e,
           source = src,
           published = (case published_parsed e of Some pub \<Rightarrow> isoformat pub | None \<Rightarrow> []),
           content = summ,
           origin = ''rss'' \<rparr>)"

fun rss_entries :: "(int \<Rightarrow> string) \<Rightarrow> int \<Rightarrow> string \<Rightarrow> entry list \<Rightarrow> article list" where
  "rss_entries isoformat cutoff src [] = []"
| "rss_entries isoformat cutoff src (e # es) =
     (if (case published_parsed e of Some pub \<Rightarrow> pub < cutoff | None \<Rightarrow> False)
      then rss_entries isoformat cutoff src es
      else let a = entry_article isoformat src e in
        if title a \<noteq> [] \<and> content a \<noteq> []
        then a # rss_entries isoformat cutoff src es
        else rss_entries isoformat cutoff src es)"

text \<open>
  The loop over the configured feeds. \<open>fetch\<close> gives, for a feed URL, what
  \<open>feedparser.parse\<close> does there; a feed that raises contributes nothing.
\<close>

fun rss_feeds_loop ::
  "(int \<Rightarrow> string) \<Rightarrow> int \<Rightarrow> (string \<Rightarrow> parse_result) \<Rightarrow> string list \<Rightarrow> article list" where
  "rss_feeds_loop isoformat cutoff fetch [] = []"
| "rss_feeds_loop isoformat cutoff fetch (feed_url # urls) =
     (case fetch feed_url of
        ParseError \<Rightarrow> rss_feeds_loop isoformat cutoff fetch urls
      | Parsed fd \<Rightarrow>
          rss_entries isoformat cutoff
            (case feed_title fd of Some t \<Rightarrow> t | None \<Rightarrow> feed_url)
            (take rss_max_articles (entries fd))
          @ rss_feeds_loop isoformat cutoff fetch urls)"

definition fetch_from_rss ::
  "(int \<Rightarrow> string) \<Rightarrow> int \<Rightarrow> (string \<Rightarrow> parse_result) \<Rightarrow> string list \<Rightarrow> article list" where
  "fetch_from_rss isoformat now fetch feeds =
     rss_feeds_loop isoformat (now - one_day) fetch feeds"

subsection \<open>deduplicate\<close>

definition stop_words :: "string list" where
  "stop_words = [''the'', ''a'', ''an'', ''is'', ''in'', ''of'', ''for'', ''to'', ''and'',
                 ''or'', ''on'', ''at'', ''with'']"

text \<open>
  \<open>re.sub(r"\b(the|a|...|with)\b", "", key)\<close>: the alternatives are made of word
  characters only and need a word boundary on both sides, so a match is a maximal run of
  word characters that is one of the stop words.
\<close>

function remove_stop_words :: "string \<Rightarrow> string" where
  "remove_stop_words [] = []"
| "remove_stop_words (c # cs) =
     (if is_word c
      then (let w = c # takeWhile is_word cs in
            (if w \<in> set stop_words then [] else w) @ remove_stop_words (dropWhile is_word cs))
      else c # remove_stop_words cs)"
  by pat_completeness auto
termination
  by (relation "measure length") (auto simp: length_dropWhile_le less_Suc_eq_le)

text \<open>\<open>re.sub(r"\s+", " ", key)\<close>\<close>

function collapse_spaces :: "string \<Rightarrow> string" where
  "collapse_spaces [] = []"
| "collapse_spaces (c # cs) =
     (if is_space c then CHR '' '' # collapse_spaces (dropWhile is_space cs)
      else c # collapse_spaces cs)"
  by pat_completeness auto
termination
  by (relation "measure length") (auto simp: length_dropWhile_le less_Suc_eq_le)

definition dedup_key :: "article \<Rightarrow> string" where
  "dedup_key art =
     (let key = take 60 (strip (lower (title art)));
          key = remove_stop_words key
      in strip (collapse_spaces key))"

fun dedup_loop :: "string set \<Rightarrow> article list \<Rightarrow> article list" where
  "dedup_loop seen_titles [] = []"
| "dedup_loop seen_titles (art # arts) =
     (let key = dedup_key art in
      if key \<notin> seen_titles then art # dedup_loop (insert key seen_titles) arts
      else dedup_loop seen_titles arts)"

definition deduplicate :: "article list \<Rightarrow> article list" where
  "deduplicate articles = dedup_loop {} articles"

subsection \<open>filter\_relevant\<close>

definition relevance_keywords :: "string list" where
  "relevance_keywords =
    [''ai'', ''artificial intelligence'', ''machine learning'', ''deep learning'',
     ''robot'', ''automation'', ''tech'', ''technology'', ''science'', ''software'',
     ''hardware'', ''cloud'', ''data'', ''algorithm'', ''neural'', ''gpt'', ''llm'',
     ''chip'', ''semiconductor'', ''quantum'', ''cybersecurity'', ''space'', ''biotech'',
     ''startup'', ''innovation'', ''research'', ''computing'', ''model'', ''openai'',
     ''google'', ''microsoft'', ''meta'', ''nvidia'', ''apple'', ''tesla'']"

text \<open>Python's \<open>kw in text\<close> on strings.\<close>

fun contains :: "string \<Rightarrow> string \<Rightarrow> bool" where
  "contains kw [] = (kw = [])"
| "contains kw (c # cs) = (prefix kw (c # cs) \<or> contains kw cs)"

definition filter_relevant :: "article list \<Rightarrow> article list" where
  "filter_relevant articles =
     filter (\<lambda>art. \<exists>kw \<in> set relevance_keywords. contains kw (lower (title art @ '' '' @ summary art)))
       articles"

subsection \<open>fetch\_news\<close>

text \<open>
  \<open>all_articles.sort(key=lambda x: x.get("published", ""), reverse=True)\<close>: the keys are
  strings, compared by code point; the sort is stable, and with \<open>reverse=True\<close> the
  list is reversed, sorted and reversed again.
\<close>

definition sort_newest_first :: "article list \<Rightarrow> article list" where
  "sort_newest_first xs = rev (sort_key published (rev xs))"

text \<open>\<open>fetch_news\<close>, from the two lists the fetchers returned.\<close>

definition fetch_news :: "article list \<Rightarrow> article list \<Rightarrow> article list" where
  "fetch_news newsapi_articles rss_articles =
     (let all_articles = newsapi_articles @ rss_articles;
          all_articles = deduplicate all_articles;
          all_articles = filter_relevant all_articles;
          all_articles = sort_newest_first all_articles
      in take 20 all_articles)"


section \<open>generator.py: the sources block of generate\_article\<close>

text \<open>The exceptions that leave a function of the program.\<close>

datatype error = KeyError | OSError

text \<open>
  One element of the \<open>"sources"\<close> list of the model's JSON reply: a dict that may or may
  not have the keys \<open>"name"\<close> and \<open>"url"\<close> (\<open>None\<close> is a missing key).
\<close>

record source_ref =
  ref_name :: "string option"
  ref_url :: "string option"

text \<open>\<open>seen = {s["url"] for s in sources}\<close>: a source without the key raises.\<close>

fun seen_urls :: "source_ref list \<Rightarrow> error + string set" where
  "seen_urls [] = Inr {}"
| "seen_urls (s # ss) =
     (case ref_url s of
        None \<Rightarrow> Inl KeyError
      | Some u \<Rightarrow> (case seen_urls ss of Inl e \<Rightarrow> Inl e | Inr us \<Rightarrow> Inr (insert u us)))"

text \<open>
  The loop \<open>for art in articles[:8]\<close>, which appends the fetched articles whose URL is
  non-empty and not seen so far; it returns the extended \<open>sources\<close> list.
\<close>

fun fetched_loop :: "source_ref list \<Rightarrow> string set \<Rightarrow> article list \<Rightarrow> source_ref list" where
  "fetched_loop sources seen [] = sources"
| "fetched_loop sources seen (art # arts) =
     (if url art \<noteq> [] \<and> url art \<notin> seen
      then fetched_loop (sources @ [\<lparr> ref_name = Some (source art), ref_url = Some (url art) \<rparr>])
             (insert (url art) seen) arts
      else fetched_loop sources seen arts)"

text \<open>
  The generator \<open>... for s in sources if s.get("url")\<close>: a source whose URL is missing
  or empty is left out; a listed source without \<open>"name"\<close> raises. The result is the
  list of (name, url) pairs that get an item in the block.
\<close>

fun listed_pairs :: "source_ref list \<Rightarrow> error + (string \<times> string) list" where
  "listed_pairs [] = Inr []"
| "listed_pairs (s # ss) =
     (case ref_url s of
        None \<Rightarrow> listed_pairs ss
      | Some u \<Rightarrow>
          if u = [] then listed_pairs ss
          else (case ref_name s of
                  None \<Rightarrow> Inl KeyError
                | Some n \<Rightarrow>
                    (case listed_pairs ss of Inl e \<Rightarrow> Inl e | Inr ps \<Rightarrow> Inr ((n, u) # ps))))"

definition sources_listing ::
  "source_ref list \<Rightarrow> article list \<Rightarrow> error + (string \<times> string) list" where
  "sources_listing sources articles =
     (case seen_urls sources of
        Inl e \<Rightarrow> Inl e
      | Inr seen \<Rightarrow> listed_pairs (fetched_loop sources seen (take 8 articles)))"

text \<open>\<open>"\n".join(...)\<close> of the items.\<close>

fun join_lines :: "string list \<Rightarrow> string" where
  "join_lines [] = []"
| "join_lines [x] = x"
| "join_lines (x # y # ys) = x @ [newline] @ join_lines (y # ys)"

definition dquote :: char where
  "dquote = CHR 0x22"

definition source_item :: "string \<times> string \<Rightarrow> string" where
  "source_item p =
     ''<li><a href='' @ [dquote] @ snd p @ [dquote] @ '' target='' @ [dquote] @ ''_blank''
       @ [dquote] @ '' rel='' @ [dquote] @ ''noopener noreferrer'' @ [dquote] @ ''>''
       @ fst p @ ''</a></li>''"

text \<open>
  The heading of the block: the pictograph U+1F4F0, a space, and the words.
\<close>

definition sources_heading :: ustring where
  "sources_heading = [0x1F4F0, 0x20] @ ustr ''Sources &amp; References''"

text \<open>
  The step \<open>if cfg_article["include_sources"] and sources: ... data["content"] += ...\<close>:
  the new content.
\<close>

definition sources_block :: "(string \<times> string) list \<Rightarrow> ustring" where
  "sources_block ps =
     ustr ([newline] @ ''<hr/>'' @ [newline] @ ''<h3>'') @ sources_heading
     @ ustr (''</h3>'' @ [newline] @ ''<ul>'' @ [newline]
             @ join_lines (map source_item ps) @ [newline] @ ''</ul>'')"

definition append_sources ::
  "bool \<Rightarrow> ustring \<Rightarrow> source_ref list \<Rightarrow> article list \<Rightarrow> error + ustring" where
  "append_sources include_sources content0 sources articles =
     (if include_sources \<and> sources \<noteq> [] then
        (case sources_listing sources articles of
           Inl e \<Rightarrow> Inl e
         | Inr ps \<Rightarrow> Inr (content0 @ sources_block ps))
      else Inr content0)"

subsection \<open>What the block lists\<close>

text \<open>
  The pairs the model returned that have a name and a non-empty URL, and the pairs the
  loop adds for the fetched articles.
\<close>

definition returned_pairs :: "source_ref list \<Rightarrow> (string \<times> string) list" where
  "returned_pairs sources =
     List.map_filter
       (\<lambda>s. case ref_url s of
              None \<Rightarrow> None
            | Some u \<Rightarrow> (case ref_name s of
                          None \<Rightarrow> None
                        | Some n \<Rightarrow> if u = [] then None else Some (n, u)))
       sources"

definition model_urls :: "source_ref list \<Rightarrow> string set" where
  "model_urls sources = {u. \<exists>s \<in> set sources. ref_url s = Some u}"

fun new_pairs :: "string set \<Rightarrow> article list \<Rightarrow> (string \<times> string) list" where
  "new_pairs seen [] = []"
| "new_pairs seen (art # arts) =
     (if url art \<noteq> [] \<and> url art \<notin> seen
      then (source art, url art) # new_pairs (insert (url art) seen) arts
      else new_pairs seen arts)"


section \<open>sitemap.py\<close>

definition site_base_url :: string where
  "site_base_url = ''https://saurabhjha.co.in''"

text \<open>
  One record of the backend's listing: \<open>post["slug"]\<close> raises when the key is missing,
  \<open>post.get("updatedAt", datetime.now().isoformat())\<close> has a default.
\<close>

record listed_post =
  post_slug :: "string option"
  post_updatedAt :: "string option"

text \<open>The JSON body of a listing page: \<open>data.get("posts", [])\<close> and
  \<open>data.get("pagination", {}).get("totalPages", 1)\<close>.\<close>

record listing_page =
  page_posts :: "listed_post list"
  page_totalPages :: "int option"

text \<open>What \<open>requests.get\<close> does for one page: a response with its status code and
  body, or an exception (connection error, timeout, a body that is not JSON).\<close>

datatype page_reply = Reply nat listing_page | RequestFailed

record slug_entry =
  entry_slug :: string
  entry_updated :: string

text \<open>
  The loop \<open>for post in posts\<close>: the entries appended, and whether a post without
  \<open>"slug"\<close> raised (the entries appended before it stay in \<open>slugs\<close>).
\<close>

fun page_entries :: "string \<Rightarrow> listed_post list \<Rightarrow> slug_entry list \<times> bool" where
  "page_entries now_iso [] = ([], False)"
| "page_entries now_iso (post # posts) =
     (case post_slug post of
        None \<Rightarrow> ([], True)
      | Some sl \<Rightarrow>
          (let e = \<lparr> entry_slug = sl,
                      entry_updated = take 10 (case post_updatedAt post of Some u \<Rightarrow> u
                                                 | None \<Rightarrow> now_iso) \<rparr>;
               r = page_entries now_iso posts
           in (e # fst r, snd r)))"

text \<open>
  The \<open>while True\<close> loop of \<open>fetch_all_slugs\<close>. It ends at a status other than 200, at
  an empty page, at an exception, or at a page whose number reaches \<open>totalPages\<close>;
  against a backend that never does any of these it does not end, and the value is
  \<open>None\<close>.
\<close>

partial_function (option) fetch_pages ::
  "(int \<Rightarrow> page_reply) \<Rightarrow> string \<Rightarrow> int \<Rightarrow> slug_entry list \<Rightarrow> slug_entry list option" where
  "fetch_pages backend now_iso page slugs =
     (case backend page of
        RequestFailed \<Rightarrow> Some slugs
      | Reply status data \<Rightarrow>
          if status \<noteq> 200 then Some slugs
          else if page_posts data = [] then Some slugs
          else (let r = page_entries now_iso (page_posts data) in
                if snd r then Some (slugs @ fst r)
                else if page \<ge> (case page_totalPages data of Some t \<Rightarrow> t | None \<Rightarrow> 1)
                then Some (slugs @ fst r)
                else fetch_pages backend now_iso (page + 1) (slugs @ fst r)))"

declare fetch_pages.simps [code]

definition fetch_all_slugs :: "(int \<Rightarrow> page_reply) \<Rightarrow> string \<Rightarrow> slug_entry list option" where
  "fetch_all_slugs backend now_iso = fetch_pages backend now_iso 1 []"

text \<open>
  \<open>if new_slug and not any(s["slug"] == new_slug for s in slugs): slugs.insert(0, ...)\<close>;
  \<open>new_slug\<close> is \<open>None\<close> by default.
\<close>

definition inject_new_slug :: "string option \<Rightarrow> string \<Rightarrow> slug_entry list \<Rightarrow> slug_entry list" where
  "inject_new_slug new_slug today slugs =
     (case new_slug of
        None \<Rightarrow> slugs
      | Some ns \<Rightarrow>
          if ns \<noteq> [] \<and> \<not> (\<exists>s \<in> set slugs. entry_slug s = ns)
          then \<lparr> entry_slug = ns, entry_updated = today \<rparr> # slugs
          else slugs)"

text \<open>One \<open><url>\<close> element of the document.\<close>

record url_entry =
  loc :: string
  lastmod :: string
  changefreq :: string
  priority :: string

definition home_entry :: "string \<Rightarrow> url_entry" where
  "home_entry today =
     \<lparr> loc = site_base_url @ ''/'', lastmod = today, changefreq = ''daily'', priority = ''1.0'' \<rparr>"

definition post_entry :: "slug_entry \<Rightarrow> url_entry" where
  "post_entry item =
     \<lparr> loc = site_base_url @ ''/blog/'' @ entry_slug item, lastmod = entry_updated item,
       changefreq = ''monthly'', priority = ''0.8'' \<rparr>"

definition sitemap_urls :: "string \<Rightarrow> slug_entry list \<Rightarrow> url_entry list" where
  "sitemap_urls today slugs = home_entry today # map post_entry slugs"

definition render_url :: "url_entry \<Rightarrow> string" where
  "render_url e =
     ''  <url>'' @ [newline]
     @ ''    <loc>'' @ loc e @ ''</loc>'' @ [newline]
     @ ''    <lastmod>'' @ lastmod e @ ''</lastmod>'' @ [newline]
     @ ''    <changefreq>'' @ changefreq e @ ''</changefreq>'' @ [newline]
     @ ''    <priority>'' @ priority e @ ''</priority>'' @ [newline]
     @ ''  </url>'' @ [newline]"

definition render_sitemap :: "url_entry list \<Rightarrow> string" where
  "render_sitemap es =
     ''<?xml version='' @ [dquote] @ ''1.0'' @ [dquote] @ '' encoding='' @ [dquote] @ ''UTF-8''
     @ [dquote] @ ''?>'' @ [newline]
     @ ''<urlset xmlns='' @ [dquote] @ ''http://www.sitemaps.org/schemas/sitemap/0.9''
     @ [dquote] @ ''>'' @ [newline]
     @ concat (map render_url es) @ ''</urlset>''"

text \<open>
  \<open>generate_sitemap\<close>: the entries of the document, and the text written to
  \<open>output/sitemap.xml\<close>.
\<close>

definition sitemap_entries ::
  "(int \<Rightarrow> page_reply) \<Rightarrow> string \<Rightarrow> string \<Rightarrow> string option \<Rightarrow> url_entry list option" where
  "sitemap_entries backend now_iso today new_slug =
     (case fetch_all_slugs backend now_iso of
        None \<Rightarrow> None
      | Some slugs \<Rightarrow> Some (sitemap_urls today (inject_new_slug new_slug today slugs)))"

definition generate_sitemap ::
  "(int \<Rightarrow> page_reply) \<Rightarrow> string \<Rightarrow> string \<Rightarrow> string option \<Rightarrow> string option" where
  "generate_sitemap backend now_iso today new_slug =
     map_option render_sitemap (sitemap_entries backend now_iso today new_slug)"

text \<open>The loop of \<open>fetch_all_slugs\<close> ends at page \<open>n\<close>.\<close>

definition last_page :: "(int \<Rightarrow> page_reply) \<Rightarrow> int \<Rightarrow> bool" where
  "last_page backend n =
     (case backend n of
        RequestFailed \<Rightarrow> True
      | Reply status data \<Rightarrow>
          status \<noteq> 200 \<or> page_posts data = []
          \<or> (\<exists>p \<in> set (page_posts data). post_slug p = None)
          \<or> n \<ge> (case page_totalPages data of Some t \<Rightarrow> t | None \<Rightarrow> 1))"


section \<open>generator.py: generate\_article\<close>

text \<open>
  The JSON object of the model's reply, as far as \<open>generate_article\<close> reads it; a field
  is \<open>None\<close> when the key is missing.
\<close>

record model_reply =
  reply_title :: "string option"
  reply_content :: "ustring option"
  reply_excerpt :: "string option"
  reply_sources :: "source_ref list option"
  reply_tags :: "string list option"
  reply_reading_time :: "int option"
  reply_meta_keywords :: "string option"

text \<open>The \<open>"_meta"\<close> block of a Generated Post; \<open>{}\<close> is the block with no key.\<close>

record meta =
  meta_date :: "string option"
  meta_reading_time :: "int option"
  meta_keywords :: "string option"
  meta_canonical_url :: "string option"

definition empty_meta :: meta where
  "empty_meta = \<lparr> meta_date = None, meta_reading_time = None, meta_keywords = None,
                   meta_canonical_url = None \<rparr>"

text \<open>
  The Generated Post: the dict \<open>generate_article\<close> returns. Its keys are fixed except
  for \<open>"_meta"\<close>, which \<open>publish_article\<close> removes and puts back; \<open>post_meta = None\<close> is
  the dict without that key.
\<close>

record post =
  post_title :: string
  post_slug_field :: string
  post_content :: ustring
  post_excerpt :: string
  post_featuredImage :: string
  post_status :: string
  post_author :: string
  post_tags :: "string list"
  post_meta :: "meta option"

definition default_tags :: "string list" where
  "default_tags = [''AI'', ''Technology'', ''Automation'', ''Tech News'']"

definition include_sources :: bool where
  "include_sources = True"

text \<open>\<open>list(dict.fromkeys(xs))\<close>: the first occurrence of each element, in order.\<close>

definition fromkeys :: "'a list \<Rightarrow> 'a list" where
  "fromkeys xs = rev (remdups (rev xs))"

text \<open>\<open>not data.get(field)\<close> for a string field.\<close>

definition falsy :: "'a list option \<Rightarrow> bool" where
  "falsy v = (case v of None \<Rightarrow> True | Some x \<Rightarrow> x = [])"

text \<open>
  \<open>generate_article\<close> from the parsed reply: \<open>None\<close> for the reply stands for a call to
  the model that gave nothing, or a reply that is not JSON. \<open>today\<close> is the date string.
\<close>

definition generate_article ::
  "string \<Rightarrow> model_reply option \<Rightarrow> article list \<Rightarrow> error + post option" where
  "generate_article today reply articles =
     (case reply of
        None \<Rightarrow> Inr None
      | Some data \<Rightarrow>
          if falsy (reply_title data) \<or> falsy (reply_content data) \<or> falsy (reply_excerpt data)
          then Inr None
          else
            (case append_sources include_sources (the (reply_content data))
                    (case reply_sources data of Some ss \<Rightarrow> ss | None \<Rightarrow> []) articles of
               Inl e \<Rightarrow> Inl e
             | Inr content1 \<Rightarrow>
                 (let slug = slugify (the (reply_title data));
                      tags = (case reply_tags data of Some ts \<Rightarrow> ts | None \<Rightarrow> default_tags);
                      merged_tags = fromkeys (default_tags @ tags)
                  in Inr (Some
                    \<lparr> post_title = the (reply_title data),
                      post_slug_field = slug,
                      post_content = content1,
                      post_excerpt = take 300 (the (reply_excerpt data)),
                      post_featuredImage = [],
                      post_status = ''published'',
                      post_author = ''TechNews Bot'',
                      post_tags = merged_tags,
                      post_meta = Some
                        \<lparr> meta_date = Some today,
                          meta_reading_time =
                            Some (case reply_reading_time data of Some n \<Rightarrow> n | None \<Rightarrow> 5),
                          meta_keywords =
                            Some (case reply_meta_keywords data of Some k \<Rightarrow> k | None \<Rightarrow> []),
                          meta_canonical_url = Some (site_base_url @ ''/blog/'' @ slug) \<rparr> \<rparr>))))"

section \<open>The outside world and the state of a run\<close>

text \<open>What a \<open>requests\<close> call can raise.\<close>

datatype exn = ConnectionError | Timeout | OtherException

text \<open>
  The login call: a response with its status code and the \<open>"token"\<close> of its JSON body
  (\<open>None\<close> when the body has none), or an exception.
\<close>

datatype login_outcome = LoginResponse nat "string option" | LoginRaises exn

text \<open>
  The creation call: a response with its status code, and whether the code can read its
  JSON body (\<open>resp.json()\<close> and what is read from it do not raise), or an exception.
\<close>

datatype create_outcome = CreateResponse nat bool | CreateRaises exn

text \<open>A call to a search engine: the status code of the response, or an exception.\<close>

datatype ping_outcome = PingResponse nat | PingRaises exn

text \<open>The requests sent, in order.\<close>

datatype call =
    LoginCall
  | CreateCall string post
  | IndexNowCall string string string string
  | GooglePing string
  | BingPing string

text \<open>
  What one run meets outside: the articles the two fetchers return, the parsed reply of
  the model, the replies of the backend and of the search engines, whether the file
  system lets the program write a backup file and make the directory of the IndexNow
  key file, read that file and write it, the key a new \<open>uuid\<close> gives, the clock.
\<close>

record world =
  world_newsapi_articles :: "article list"
  world_rss_articles :: "article list"
  groq_reply :: "model_reply option"
  login_reply :: login_outcome
  create_reply :: create_outcome
  backup_writable :: bool
  listing_backend :: "int \<Rightarrow> page_reply"
  key_dir_ok :: bool
  key_readable :: bool
  key_writable :: bool
  indexnow_reply :: ping_outcome
  google_reply :: ping_outcome
  bing_reply :: ping_outcome
  fresh_key :: string
  world_today :: string
  world_now_iso :: string

text \<open>
  What the program keeps: the module variable \<open>_cached_token\<close>, the files
  \<open>data/published.json\<close> (the set of slugs its JSON array holds; \<open>None\<close> when the file
  does not exist), \<open>output/<slug>.json\<close>, \<open>output/sitemap.xml\<close> and
  \<open>data/indexnow_key.txt\<close>, and the requests sent so far.
\<close>

record state =
  cached_token :: "string option"
  ledger_file :: "string set option"
  backup_files :: "(string \<times> post) list"
  sitemap_file :: "string option"
  key_file :: "string option"
  calls :: "call list"

section \<open>publisher.py\<close>

definition get_jwt_token :: "world \<Rightarrow> state \<Rightarrow> string option \<times> state" where
  "get_jwt_token w s =
     (if \<not> falsy (cached_token s) then (cached_token s, s)
      else
        (let s1 = s\<lparr> calls := calls s @ [LoginCall] \<rparr> in
         case login_reply w of
           LoginResponse status token \<Rightarrow>
             if status = 200 then
               (if \<not> falsy token then (token, s1\<lparr> cached_token := token \<rparr>)
                else (None, s1))
             else if status = 401 then (None, s1)
             else (None, s1)
         | LoginRaises ConnectionError \<Rightarrow> (None, s1)
         | LoginRaises Timeout \<Rightarrow> (None, s1)
         | LoginRaises OtherException \<Rightarrow> (None, s1)))"

text \<open>\<open>_save_local_backup\<close>: the file holds \<open>{**article, "_meta": meta}\<close>; a failure to
  write is caught and logged.\<close>

definition save_local_backup :: "world \<Rightarrow> post \<Rightarrow> meta \<Rightarrow> string \<Rightarrow> state \<Rightarrow> state" where
  "save_local_backup w article m slug s =
     (if backup_writable w
      then s\<lparr> backup_files :=
               AList.update slug (article\<lparr> post_meta := Some m \<rparr>) (backup_files s) \<rparr>
      else s)"

text \<open>
  \<open>publish_article\<close>: the value returned, the caller's dict after the call, and the new
  state.
\<close>

definition publish_article :: "world \<Rightarrow> post \<Rightarrow> state \<Rightarrow> string option \<times> post \<times> state" where
  "publish_article w article0 s0 =
     (case get_jwt_token w s0 of
        (None, s) \<Rightarrow> (None, article0, s)
      | (Some token, s) \<Rightarrow>
          if token = [] then (None, article0, s)
          else
            (let m = (case post_meta article0 of Some m0 \<Rightarrow> m0 | None \<Rightarrow> empty_meta);
                 article = article0\<lparr> post_meta := None \<rparr>;
                 slug = post_slug_field article;
                 canonical = (case meta_canonical_url m of
                                Some u \<Rightarrow> u
                              | None \<Rightarrow> site_base_url @ ''/blog/'' @ slug);
                 s1 = s\<lparr> calls := calls s @ [CreateCall token article] \<rparr>
             in case create_reply w of
                  CreateResponse status readable \<Rightarrow>
                    if status = 201 then
                      (if readable
                       then (Some canonical, article\<lparr> post_meta := Some m \<rparr>,
                             save_local_backup w article m slug s1)
                       else (None, article, s1))
                    else if status = 401 then (None, article, s1)
                    else if status = 409 then (None, article, s1)
                    else if status = 400 then (None, article, s1)
                    else (None, article, s1)
                | CreateRaises ConnectionError \<Rightarrow> (None, article, s1)
                | CreateRaises Timeout \<Rightarrow> (None, article, s1)
                | CreateRaises OtherException \<Rightarrow> (None, article, s1)))"

section \<open>indexer.py\<close>

definition site_host :: string where
  "site_host = ''saurabhjha.co.in''"

text \<open>
  \<open>get_or_create_indexnow_key\<close>: the key of the file if it has one, a new key
  written to the file otherwise. \<open>mkdir\<close>, \<open>read_text\<close> and \<open>write_text\<close> are not
  inside any \<open>try\<close>: when one of them fails, the exception leaves the function, and
  the state is as it was.
\<close>

definition get_or_create_indexnow_key :: "world \<Rightarrow> state \<Rightarrow> (error + string) \<times> state" where
  "get_or_create_indexnow_key w s =
     (if \<not> key_dir_ok w then (Inl OSError, s)
      else
        (let create = (if key_writable w
                       then (Inr (fresh_key w), s\<lparr> key_file := Some (fresh_key w) \<rparr>)
                       else (Inl OSError, s))
         in case key_file s of
              Some text \<Rightarrow>
                if \<not> key_readable w then (Inl OSError, s)
                else if strip text \<noteq> [] then (Inr (strip text), s)
                else create
            | None \<Rightarrow> create))"

text \<open>
  \<open>submit_indexnow\<close>: the key is fetched before the \<open>try\<close> that guards the request,
  so an exception of \<open>get_or_create_indexnow_key\<close> leaves \<open>submit_indexnow\<close> too.
\<close>

definition submit_indexnow :: "world \<Rightarrow> string \<Rightarrow> state \<Rightarrow> (error + bool) \<times> state" where
  "submit_indexnow w u s0 =
     (case get_or_create_indexnow_key w s0 of
        (Inl e, s) \<Rightarrow> (Inl e, s)
      | (Inr key, s) \<Rightarrow>
          (let key_url = site_base_url @ ''/'' @ key @ ''.txt'';
               s1 = s\<lparr> calls := calls s @ [IndexNowCall site_host key key_url u] \<rparr>
           in case indexnow_reply w of
                PingResponse status \<Rightarrow>
                  if status = 200 \<or> status = 202 then (Inr True, s1)
                  else if status = 403 then (Inr False, s1)
                  else if status = 422 then (Inr False, s1)
                  else (Inr False, s1)
              | PingRaises Timeout \<Rightarrow> (Inr False, s1)
              | PingRaises e \<Rightarrow> (Inr False, s1)))"

definition ping_google_sitemap :: "world \<Rightarrow> state \<Rightarrow> bool \<times> state" where
  "ping_google_sitemap w s =
     (let sitemap_url = site_base_url @ ''/sitemap.xml'';
          s1 = s\<lparr> calls := calls s @ [GooglePing sitemap_url] \<rparr>
      in case google_reply w of
           PingResponse status \<Rightarrow> if status = 200 then (True, s1) else (False, s1)
         | PingRaises Timeout \<Rightarrow> (False, s1)
         | PingRaises e \<Rightarrow> (False, s1))"

definition ping_bing_sitemap :: "world \<Rightarrow> state \<Rightarrow> bool \<times> state" where
  "ping_bing_sitemap w s =
     (let sitemap_url = site_base_url @ ''/sitemap.xml'';
          s1 = s\<lparr> calls := calls s @ [BingPing sitemap_url] \<rparr>
      in case bing_reply w of
           PingResponse status \<Rightarrow> if status = 200 then (True, s1) else (False, s1)
         | PingRaises e \<Rightarrow> (False, s1))"

text \<open>
  \<open>submit_to_google\<close>: the dict literal runs the three methods in order, and an
  exception of the first ends the function before the other two are called;
  \<open>sum(results.values())\<close> counts the successes.
\<close>

definition submit_to_google :: "world \<Rightarrow> string \<Rightarrow> state \<Rightarrow> (error + bool) \<times> state" where
  "submit_to_google w u s0 =
     (case submit_indexnow w u s0 of
        (Inl e, s1) \<Rightarrow> (Inl e, s1)
      | (Inr indexnow, s1) \<Rightarrow>
          (case ping_google_sitemap w s1 of
             (google_ping, s2) \<Rightarrow>
               (case ping_bing_sitemap w s2 of
                  (bing_ping, s3) \<Rightarrow>
                    (let success_count = (if indexnow then 1 else 0)
                           + (if google_ping then 1 else 0)
                           + (if bing_ping then (1::nat) else 0)
                     in (Inr (success_count > 0), s3)))))"

section \<open>main.py\<close>

definition load_published_slugs :: "state \<Rightarrow> string set" where
  "load_published_slugs s = (case ledger_file s of Some slugs \<Rightarrow> slugs | None \<Rightarrow> {})"

definition save_published_slug :: "string \<Rightarrow> state \<Rightarrow> state" where
  "save_published_slug slug s =
     s\<lparr> ledger_file := Some (insert slug (load_published_slugs s)) \<rparr>"

text \<open>
  How a run ends: one of the four early returns, the normal end, an exception that
  leaves \<open>run\<close>, or a sitemap listing that never ends.
\<close>

datatype run_result =
    NoArticles
  | GenerationFailed
  | AlreadyPublished
  | PublishFailed
  | Completed
  | Raised error
  | ListingNeverEnds

definition run :: "world \<Rightarrow> state \<Rightarrow> run_result \<times> state" where
  "run w s =
     (let published = load_published_slugs s;
          articles = fetch_news (world_newsapi_articles w) (world_rss_articles w)
      in if articles = [] then (NoArticles, s)
         else
           (case generate_article (world_today w) (groq_reply w) articles of
              Inl e \<Rightarrow> (Raised e, s)
            | Inr None \<Rightarrow> (GenerationFailed, s)
            | Inr (Some result) \<Rightarrow>
                (let slug = post_slug_field result in
                 if slug \<in> published then (AlreadyPublished, s)
                 else
                   (case publish_article w result s of
                      (published_url, result1, s1) \<Rightarrow>
                        if falsy published_url then (PublishFailed, s1)
                        else
                          (let s2 = save_published_slug slug s1 in
                           case generate_sitemap (listing_backend w) (world_now_iso w) (world_today w)
                                  (Some slug) of
                             None \<Rightarrow> (ListingNeverEnds, s2)
                           | Some xml \<Rightarrow>
                               (case submit_to_google w (the published_url)
                                       (s2\<lparr> sitemap_file := Some xml \<rparr>) of
                                  (Inl e, s3) \<Rightarrow> (Raised e, s3)
                                | (Inr ok, s3) \<Rightarrow> (Completed, s3)))))))"

subsection \<open>Sample records\<close>

text \<open>A record about AI with a given title and timestamp, for the examples.\<close>

definition mk_article :: "string \<Rightarrow> string \<Rightarrow> article" where
  "mk_article t p = \<lparr> title = t, summary = ''AI news'', url = [], source = ''Feed'',
     published = p, content = ''AI news'', origin = ''rss'' \<rparr>"

definition wire_article :: "string \<Rightarrow> article" where
  "wire_article u = \<lparr> title = ''AI'', summary = ''AI news'', url = u, source = ''Wire'',
     published = [], content = ''AI news'', origin = ''newsapi'' \<rparr>"

definition nine_articles :: "article list" where
  "nine_articles = map wire_article
     [''v1'', ''v2'', ''v3'', ''v4'', ''v5'', ''v6'', ''v7'', ''v8'', ''v9'']"

text \<open>
  Two backends for the examples: one lists the post \<open>b\<close> on its only page; the other
  lists the post \<open>a\<close> on the first page and, a post having been added in between, again
  on the second.
\<close>

definition backend_one_page :: "int \<Rightarrow> page_reply" where
  "backend_one_page p =
     (if p = 1 then Reply 200
        \<lparr> page_posts = [\<lparr> post_slug = Some ''b'',
                           post_updatedAt = Some ''2024-05-01T10:00:00.000Z'' \<rparr>],
          page_totalPages = Some 1 \<rparr>
      else RequestFailed)"

definition backend_shifted :: "int \<Rightarrow> page_reply" where
  "backend_shifted p =
     (if p = 1 then Reply 200
        \<lparr> page_posts = [\<lparr> post_slug = Some ''a'',
                           post_updatedAt = Some ''2024-05-01T10:00:00.000Z'' \<rparr>],
          page_totalPages = Some 2 \<rparr>
      else if p = 2 then Reply 200
        \<lparr> page_posts = [\<lparr> post_slug = Some ''a'',
                           post_updatedAt = Some ''2024-05-01T10:00:00.000Z'' \<rparr>],
          page_totalPages = Some 2 \<rparr>
      else RequestFailed)"

text \<open>
  A world for the examples: one relevant article, a model reply titled
  \<open>Hello, World!\<close>, a backend that rejects the login with 401 and a creation with 409,
  an IndexNow endpoint that answers 403, a Google ping that succeeds and a Bing ping
  that cannot connect. \<open>sample_post\<close> is the post generated there, \<open>sample_state\<close> a
  first run's state.
\<close>

definition sample_world :: world where
  "sample_world =
     \<lparr> world_newsapi_articles = [mk_article ''AI one'' ''2024-01-01T10:00:00Z''],
       world_rss_articles = [],
       groq_reply = Some \<lparr> reply_title = Some ''Hello, World!'',
                             reply_content = Some (ustr ''<p>Hi</p>''),
                             reply_excerpt = Some ''Hi'',
                             reply_sources = None,
                             reply_tags = Some [''AI'', ''Chips''],
                             reply_reading_time = None,
                             reply_meta_keywords = Some ''ai, chips'' \<rparr>,
       login_reply = LoginResponse 401 None,
       create_reply = CreateResponse 409 True,
       backup_writable = True,
       listing_backend = backend_one_page,
       key_dir_ok = True,
       key_readable = True,
       key_writable = True,
       indexnow_reply = PingResponse 403,
       google_reply = PingResponse 200,
       bing_reply = PingRaises ConnectionError,
       fresh_key = ''0123456789abcdef0123456789abcdef01234567'',
       world_today = ''2024-05-03'',
       world_now_iso = ''2024-05-03T10:00:00.123456'' \<rparr>"

definition sample_post :: post where
  "sample_post =
     \<lparr> post_title = ''Hello, World!'',
       post_slug_field = ''hello-world'',
       post_content = ustr ''<p>Hi</p>'',
       post_excerpt = ''Hi'',
       post_featuredImage = [],
       post_status = ''published'',
       post_author = ''TechNews Bot'',
       post_tags = [''AI'', ''Technology'', ''Automation'', ''Tech News'', ''Chips''],
       post_meta = Some \<lparr> meta_date = Some ''2024-05-03'',
                            meta_reading_time = Some 5,
                            meta_keywords = Some ''ai, chips'',
                            meta_canonical_url =
                              Some ''https://saurabhjha.co.in/blog/hello-world'' \<rparr> \<rparr>"

definition sample_state :: state where
  "sample_state =
     \<lparr> cached_token = None, ledger_file = None, backup_files = [], sitemap_file = None,
       key_file = None, calls = [] \<rparr>"


section \<open>Properties of slugify\<close>


lemma of_char_hyphen: "(of_char hyphen :: nat) = 45"
  by (simp add: hyphen_def)
lemma of_char_underscore: "(of_char underscore :: nat) = 95"
  by (simp add: underscore_def)
lemma of_char_newline: "(of_char newline :: nat) = 10"
  by (simp add: newline_def)

lemma char_eq_of_char: "(c = d) = ((of_char c :: nat) = of_char d)"
  by (metis char_of_char)

lemma of_char_lower_char:
  "(of_char (lower_char c) :: nat) =
     (let n = of_char c in
      if (65 \<le> n \<and> n \<le> 90) \<or> (192 \<le> n \<and> n \<le> 214) \<or> (216 \<le> n \<and> n \<le> 222)
      then n + 32 else n)"
  by (auto simp: lower_char_def Let_def)

lemma lower_char_idem: "lower_char (lower_char c) = lower_char c"
  unfolding char_eq_of_char [of "lower_char (lower_char c)"] 
  by (simp add: of_char_lower_char Let_def)

lemma is_word_lower_char: "is_word (lower_char c) = is_word c"
  by (simp add: is_word_def of_char_lower_char Let_def)

lemma is_space_lower_char: "is_space (lower_char c) = is_space c"
  by (simp add: is_space_def of_char_lower_char Let_def)

lemma lower_char_eq_hyphen: "(lower_char c = hyphen) = (c = hyphen)"
  unfolding char_eq_of_char [of _ hyphen]
  by (simp add: of_char_lower_char of_char_hyphen Let_def)

lemma lower_char_eq_underscore: "(lower_char c = underscore) = (c = underscore)"
  unfolding char_eq_of_char [of _ underscore]
  by (simp add: of_char_lower_char of_char_underscore Let_def)

lemma word_not_space: "is_word c \<Longrightarrow> \<not> is_space c"
  by (simp add: is_word_def is_space_def Let_def) arith

lemma hyphen_not_space: "\<not> is_space hyphen"
  by (simp add: is_space_def of_char_hyphen)

lemma hyphen_not_word: "\<not> is_word hyphen"
  by (simp add: is_word_def of_char_hyphen)

lemma newline_space: "is_space newline"
  by (simp add: is_space_def of_char_newline)

lemma slug_char_not_space: "slug_char c \<Longrightarrow> \<not> is_space c"
  by (auto simp: slug_char_def hyphen_not_space word_not_space)

lemma slug_char_sep: "slug_char c \<Longrightarrow> is_sep c = (c = hyphen)"
  by (auto simp: slug_char_def is_sep_def word_not_space)

lemma sep_ok_tl: "sep_ok (c # cs) \<Longrightarrow> sep_ok cs"
  by (cases cs) auto

lemma sep_ok_drop: "sep_ok s \<Longrightarrow> sep_ok (drop n s)"
proof (induction n arbitrary: s)
  case 0
  then show ?case by simp
next
  case (Suc n)
  then show ?case by (cases s) (auto dest: sep_ok_tl)
qed

lemma sep_ok_take: "sep_ok s \<Longrightarrow> sep_ok (take n s)"
proof (induction s arbitrary: n rule: sep_ok.induct)
  case 1
  then show ?case by simp
next
  case (2 c)
  then show ?case by (cases n) auto
next
  case (3 c d cs)
  show ?case
  proof (cases n)
    case 0
    then show ?thesis by simp
  next
    case (Suc m)
    have "sep_ok (take m (d # cs))" using 3 by simp
    then show ?thesis using 3 Suc by (cases m) auto
  qed
qed

lemma dropWhile_hd_id: "s = [] \<or> \<not> P (hd s) \<Longrightarrow> dropWhile P s = s"
  by (cases s) auto

lemma collapse_seps_hd:
  "s \<noteq> [] \<Longrightarrow> \<not> is_sep (hd s) \<Longrightarrow> collapse_seps s \<noteq> [] \<and> hd (collapse_seps s) = hd s"
  by (cases s) auto

lemma sep_ok_collapse: "sep_ok (collapse_seps s)"
proof (induction s rule: collapse_seps.induct)
  case 1
  then show ?case by simp
next
  case (2 c cs)
  show ?case
  proof (cases "is_sep c")
    case True
    let ?r = "dropWhile is_sep cs"
    have ih: "sep_ok (collapse_seps ?r)" using 2 True by simp
    have eq: "collapse_seps (c # cs) = hyphen # collapse_seps ?r" using True by simp
    show ?thesis
    proof (cases "?r")
      case Nil
      have "collapse_seps ?r = []" unfolding Nil by simp
      then show ?thesis unfolding eq by simp
    next
      case (Cons d ds)
      then have nd: "\<not> is_sep d" by (metis hd_dropWhile list.sel(1) list.distinct(1))
      then have "collapse_seps ?r = d # collapse_seps ds" using Cons by simp
      then show ?thesis unfolding eq using ih nd by simp
    qed
  next
    case False
    have ih: "sep_ok (collapse_seps cs)" using 2 False by simp
    then show ?thesis using False by (cases "collapse_seps cs") auto
  qed
qed

lemma collapse_seps_fix:
  "sep_ok s \<Longrightarrow> \<forall>c\<in>set s. is_sep c \<longrightarrow> c = hyphen \<Longrightarrow> collapse_seps s = s"
proof (induction s rule: sep_ok.induct)
  case 1
  then show ?case by simp
next
  case (2 c)
  then show ?case by auto
next
  case (3 c d cs)
  then show ?case by auto
qed

lemma set_collapse_seps: "set (collapse_seps s) \<subseteq> insert hyphen {c \<in> set s. \<not> is_sep c}"
proof (induction s rule: collapse_seps.induct)
  case 1
  then show ?case by simp
next
  case (2 c cs)
  have "set (dropWhile is_sep cs) \<subseteq> set cs" by (simp add: set_dropWhileD subsetI)
  with 2 show ?case by (cases "is_sep c") auto
qed

lemma rstrip_hyphens_take: "\<exists>k. rstrip_hyphens s = take k s"
proof -
  have "rstrip_hyphens s = rev (drop (length (takeWhile (\<lambda>c. c = hyphen) (rev s))) (rev s))"
    by (simp add: rstrip_hyphens_def dropWhile_eq_drop)
  also have "\<dots> = take (length s - length (takeWhile (\<lambda>c. c = hyphen) (rev s))) s"
    by (simp add: rev_drop)
  finally show ?thesis by blast
qed

lemma rstrip_hyphens_last:
  "rstrip_hyphens s = [] \<or> last (rstrip_hyphens s) \<noteq> hyphen"
proof (cases "dropWhile (\<lambda>c. c = hyphen) (rev s)")
  case Nil
  show ?thesis unfolding rstrip_hyphens_def Nil by simp
next
  case (Cons d ds)
  have "\<not> (hd (dropWhile (\<lambda>c. c = hyphen) (rev s)) = hyphen)"
    by (rule hd_dropWhile) (simp add: Cons)
  then have "d \<noteq> hyphen" unfolding Cons by simp
  then show ?thesis unfolding rstrip_hyphens_def Cons by simp
qed

lemma rstrip_hyphens_id: "s = [] \<or> last s \<noteq> hyphen \<Longrightarrow> rstrip_hyphens s = s"
  by (cases s rule: rev_cases) (auto simp: rstrip_hyphens_def)

lemma trim_hyphens_no_newline:
  assumes "newline \<notin> set s"
  shows "trim_hyphens s = rstrip_hyphens (dropWhile (\<lambda>c. c = hyphen) s)"
proof -
  define s1 where "s1 = dropWhile (\<lambda>c. c = hyphen) s"
  have "set s1 \<subseteq> set s" unfolding s1_def by (simp add: set_dropWhileD subsetI)
  then have nn: "newline \<notin> set s1" using assms by blast
  have "\<not> (s1 \<noteq> [] \<and> last s1 = newline)"
  proof
    assume "s1 \<noteq> [] \<and> last s1 = newline"
    then have "newline \<in> set s1" using last_in_set [of s1] by simp
    then show False using nn by simp
  qed
  then have "(if s1 \<noteq> [] \<and> last s1 = newline then rstrip_hyphens (butlast s1) @ [newline]
      else rstrip_hyphens s1) = rstrip_hyphens s1" by (rule if_not_P)
  then show ?thesis unfolding trim_hyphens_def Let_def s1_def .
qed


lemma set_dropWhile_subset: "set (dropWhile P xs) \<subseteq> set xs"
  by (simp add: set_dropWhileD subsetI)

lemma set_strip: "set (strip s) \<subseteq> set s"
proof -
  have "set (strip s) = set (dropWhile is_space (rev (dropWhile is_space s)))"
    by (simp add: strip_def)
  also have "\<dots> \<subseteq> set (rev (dropWhile is_space s))"
    by (rule set_dropWhile_subset)
  also have "\<dots> = set (dropWhile is_space s)"
    by simp
  also have "\<dots> \<subseteq> set s"
    by (rule set_dropWhile_subset)
  finally show ?thesis .
qed

lemma slug_char_collapse:
  "c \<in> set (collapse_seps (strip_nonword (strip (lower t)))) \<Longrightarrow> slug_char c"
proof -
  let ?u = "strip_nonword (strip (lower t))"
  assume "c \<in> set (collapse_seps ?u)"
  then have "c = hyphen \<or> (c \<in> set ?u \<and> \<not> is_sep c)"
    using set_collapse_seps [of ?u] by auto
  then show ?thesis
  proof
    assume "c = hyphen"
    then show ?thesis by (simp add: slug_char_def)
  next
    assume a: "c \<in> set ?u \<and> \<not> is_sep c"
    then have w: "is_word c" by (auto simp: strip_nonword_def is_sep_def)
    from a have "c \<in> set (strip (lower t))" by (simp add: strip_nonword_def)
    then have "c \<in> set (lower t)" using set_strip by blast
    then obtain d where "c = lower_char d" by (auto simp: lower_def)
    then have "lower_char c = c" by (simp add: lower_char_idem)
    then show ?thesis using w a by (simp add: slug_char_def is_sep_def)
  qed
qed

lemma trim_hyphens_collapse:
  "trim_hyphens (collapse_seps (strip_nonword (strip (lower t)))) =
     rstrip_hyphens (dropWhile (\<lambda>c. c = hyphen) (collapse_seps (strip_nonword (strip (lower t)))))"
proof (rule trim_hyphens_no_newline)
  show "newline \<notin> set (collapse_seps (strip_nonword (strip (lower t))))"
    using slug_char_collapse [of newline t] slug_char_not_space [of newline] newline_space
    by blast
qed

lemma slugify_take_drop:
  "\<exists>k j. slugify t = take k (drop j (collapse_seps (strip_nonword (strip (lower t)))))"
proof -
  let ?v = "collapse_seps (strip_nonword (strip (lower t)))"
  obtain k where k: "rstrip_hyphens (dropWhile (\<lambda>c. c = hyphen) ?v)
      = take k (dropWhile (\<lambda>c. c = hyphen) ?v)"
    using rstrip_hyphens_take by blast
  have "slugify t = take 80 (take k (dropWhile (\<lambda>c. c = hyphen) ?v))"
    by (simp add: slugify_def Let_def trim_hyphens_collapse k)
  also have "\<dots> = take (min 80 k) (drop (length (takeWhile (\<lambda>c. c = hyphen) ?v)) ?v)"
    by (simp add: dropWhile_eq_drop)
  finally show ?thesis by blast
qed

lemma slugify_chars: "c \<in> set (slugify t) \<Longrightarrow> slug_char c"
proof -
  assume a: "c \<in> set (slugify t)"
  obtain k j where "slugify t = take k (drop j (collapse_seps (strip_nonword (strip (lower t)))))"
    using slugify_take_drop by blast
  then have "c \<in> set (collapse_seps (strip_nonword (strip (lower t))))"
    using a by (metis in_set_takeD in_set_dropD)
  then show ?thesis by (rule slug_char_collapse)
qed

lemma slugify_sep_ok: "sep_ok (slugify t)"
proof -
  obtain k j where "slugify t = take k (drop j (collapse_seps (strip_nonword (strip (lower t)))))"
    using slugify_take_drop by blast
  then show ?thesis by (simp add: sep_ok_take sep_ok_drop sep_ok_collapse)
qed

lemma slugify_length: "length (slugify t) \<le> 80"
  by (simp add: slugify_def Let_def)

lemma hd_rstrip_hyphens:
  "rstrip_hyphens s \<noteq> [] \<Longrightarrow> hd (rstrip_hyphens s) = hd s"
proof -
  assume a: "rstrip_hyphens s \<noteq> []"
  obtain k where k: "rstrip_hyphens s = take k s" using rstrip_hyphens_take by blast
  then have "k \<noteq> 0" using a by auto
  then show ?thesis unfolding k by simp
qed

lemma slugify_hd: "slugify t = [] \<or> hd (slugify t) \<noteq> hyphen"
proof (cases "slugify t = []")
  case True
  then show ?thesis by simp
next
  case False
  let ?v = "collapse_seps (strip_nonword (strip (lower t)))"
  let ?d = "dropWhile (\<lambda>c. c = hyphen) ?v"
  have eq: "slugify t = take 80 (rstrip_hyphens ?d)"
    by (simp add: slugify_def Let_def trim_hyphens_collapse)
  then have ne: "rstrip_hyphens ?d \<noteq> []" using False by auto
  have "?d \<noteq> []"
  proof
    assume e: "?d = []"
    show False using ne unfolding e by (simp add: rstrip_hyphens_def)
  qed
  then have "\<not> (hd ?d = hyphen)" by (rule hd_dropWhile)
  moreover have "hd (slugify t) = hd ?d"
    unfolding eq using ne by (simp add: hd_rstrip_hyphens)
  ultimately show ?thesis by simp
qed


lemma slugify_fixpoint:
  assumes chars: "\<forall>c\<in>set s. slug_char c"
    and sep: "sep_ok s"
    and first: "s = [] \<or> hd s \<noteq> hyphen"
    and final: "s = [] \<or> last s \<noteq> hyphen"
    and len: "length s \<le> 80"
  shows "slugify s = s"
proof -
  have low: "lower s = s"
    unfolding lower_def using chars
    by (intro map_idI) (auto simp: slug_char_def lower_char_eq_hyphen)
  have nsp: "\<forall>c\<in>set s. \<not> is_space c"
    using chars slug_char_not_space by blast
  have "dropWhile is_space s = s"
    by (rule dropWhile_hd_id) (use nsp in \<open>cases s; simp\<close>)
  moreover have "dropWhile is_space (rev s) = rev s"
    by (rule dropWhile_hd_id) (use nsp in \<open>cases s rule: rev_cases; simp\<close>)
  ultimately have st: "strip s = s"
    by (simp add: strip_def)
  have nw: "strip_nonword s = s"
    unfolding strip_nonword_def using chars by (intro filter_True) (auto simp: slug_char_def)
  have "\<forall>c\<in>set s. is_sep c \<longrightarrow> c = hyphen"
    using chars slug_char_sep by blast
  then have col: "collapse_seps s = s"
    using sep by (simp add: collapse_seps_fix)
  have "newline \<notin> set s"
    using nsp newline_space by blast
  then have "trim_hyphens s = rstrip_hyphens (dropWhile (\<lambda>c. c = hyphen) s)"
    by (rule trim_hyphens_no_newline)
  moreover have "dropWhile (\<lambda>c. c = hyphen) s = s"
    by (rule dropWhile_hd_id) (use first in simp)
  ultimately have tr: "trim_hyphens s = s"
    using final by (simp add: rstrip_hyphens_id)
  show ?thesis
    by (simp add: slugify_def Let_def low st nw col tr len)
qed

text \<open>
  Claim C1, as the code has it. The three output properties hold for every input: the
  slug has at most 80 characters, none of them is whitespace, and each is a hyphen or
  an alphanumeric character (a word character other than the underscore). Applying
  \<open>slugify\<close> again returns the slug unchanged whenever the slug does not end in a
  hyphen. (The cut at 80 characters comes after the hyphens are trimmed, so a slug of
  exactly 80 characters may end in one.)
\<close>

theorem slugify_properties:
  "(slugify t = [] \<or> last (slugify t) \<noteq> hyphen \<longrightarrow> slugify (slugify t) = slugify t)
   \<and> length (slugify t) \<le> 80
   \<and> (\<forall>c\<in>set (slugify t). \<not> is_space c \<and> (c = hyphen \<or> (is_word c \<and> c \<noteq> underscore)))"
proof (intro conjI impI ballI)
  assume "slugify t = [] \<or> last (slugify t) \<noteq> hyphen"
  then show "slugify (slugify t) = slugify t"
    using slugify_chars slugify_sep_ok slugify_hd slugify_length
    by (intro slugify_fixpoint) blast+
next
  show "length (slugify t) \<le> 80" by (rule slugify_length)
next
  fix c assume "c \<in> set (slugify t)"
  then have "slug_char c" by (rule slugify_chars)
  then show "\<not> is_space c" by (rule slug_char_not_space)
next
  fix c assume "c \<in> set (slugify t)"
  then have "slug_char c" by (rule slugify_chars)
  then show "c = hyphen \<or> (is_word c \<and> c \<noteq> underscore)" by (auto simp: slug_char_def)
qed

theorem slugify_properties_witness:
  "(slugify ''Hello, World!'' = [] \<or> last (slugify ''Hello, World!'') \<noteq> hyphen)
   \<and> slugify (slugify ''Hello, World!'') = slugify ''Hello, World!''
   \<and> slugify ''Hello, World!'' = ''hello-world''
   \<and> CHR ''h'' \<in> set (slugify ''Hello, World!'')
   \<and> \<not> is_space (CHR ''h'') \<and> is_word (CHR ''h'') \<and> CHR ''h'' \<noteq> underscore"
proof -
  have e: "slugify ''Hello, World!'' = ''hello-world''"
    by code_simp
  have l: "last ''hello-world'' \<noteq> hyphen"
    by (simp add: hyphen_def)
  show ?thesis
    using slugify_properties [of "''Hello, World!''"] l unfolding e
    by (simp add: hyphen_def)
qed

text \<open>
  The claim as stated fails: a title of 79 letters, a space and one more letter gives
  a slug of 79 letters and a hyphen, and slugifying that slug removes the hyphen.
\<close>

theorem slugify_not_idempotent:
  "slugify (replicate 79 (CHR ''a'') @ '' b'') = replicate 79 (CHR ''a'') @ ''-''
   \<and> slugify (slugify (replicate 79 (CHR ''a'') @ '' b'')) = replicate 79 (CHR ''a'')
   \<and> slugify (slugify (replicate 79 (CHR ''a'') @ '' b''))
       \<noteq> slugify (replicate 79 (CHR ''a'') @ '' b'')"
proof -
  have a: "slugify (replicate 79 (CHR ''a'') @ '' b'') = replicate 79 (CHR ''a'') @ ''-''"
    by code_simp
  have b: "slugify (replicate 79 (CHR ''a'') @ ''-'') = replicate 79 (CHR ''a'')"
    by code_simp
  have c: "replicate 79 (CHR ''a'') \<noteq> replicate 79 (CHR ''a'') @ ''-''"
    by simp
  show ?thesis unfolding a b using c by simp
qed



section \<open>Properties of the fetcher\<close>









lemma sort_newest_first_sorted:
  "sorted_wrt (\<lambda>a b. published b \<le> published a) (sort_newest_first xs)"
proof -
  have "sorted (map published (sort_key published (rev xs)))"
    by (rule sorted_sort_key)
  then have "sorted_wrt (\<lambda>a b. published a \<le> published b) (sort_key published (rev xs))"
    by (simp add: sorted_map)
  then show ?thesis
    by (simp add: sort_newest_first_def sorted_wrt_rev)
qed

text \<open>
  Claim C8. The list \<open>fetch_news\<close> returns is sorted by the \<open>published\<close> field in
  descending order (the field is the ISO-8601 string, compared as Python compares
  strings), every record after one with an empty \<open>published\<close> has an empty
  \<open>published\<close> too, and the list has at most 20 records.
\<close>

theorem fetch_news_sorted_capped:
  "sorted_wrt (\<lambda>a b. published b \<le> published a) (fetch_news newsapi_articles rss_articles)
   \<and> (\<forall>i j. i < j \<and> j < length (fetch_news newsapi_articles rss_articles)
          \<and> published (fetch_news newsapi_articles rss_articles ! i) = []
        \<longrightarrow> published (fetch_news newsapi_articles rss_articles ! j) = [])
   \<and> length (fetch_news newsapi_articles rss_articles) \<le> 20"
proof -
  let ?out = "fetch_news newsapi_articles rss_articles"
  have s: "sorted_wrt (\<lambda>a b. published b \<le> published a) ?out"
    unfolding fetch_news_def Let_def
    by (rule sorted_wrt_take) (rule sort_newest_first_sorted)
  have e: "\<forall>i j. i < j \<and> j < length ?out \<and> published (?out ! i) = []
        \<longrightarrow> published (?out ! j) = []"
  proof (intro allI impI)
    fix i j
    assume a: "i < j \<and> j < length ?out \<and> published (?out ! i) = []"
    then have "i < j" "j < length ?out" by simp_all
    with s have "published (?out ! j) \<le> published (?out ! i)"
      unfolding sorted_wrt_iff_nth_less by blast
    then have "published (?out ! j) \<le> []" using a by simp
    then show "published (?out ! j) = []" by simp
  qed
  have l: "length ?out \<le> 20"
    by (simp add: fetch_news_def Let_def)
  show ?thesis using s e l by blast
qed

lemma rss_entries_provenance:
  "a \<in> set (rss_entries isoformat cutoff src es) \<Longrightarrow>
     \<exists>e\<in>set es. a = entry_article isoformat src e
        \<and> (\<forall>pub. published_parsed e = Some pub \<longrightarrow> cutoff \<le> pub)"
proof (induction es)
  case Nil
  then show ?case by simp
next
  case (Cons e es)
  show ?case
  proof (cases "a \<in> set (rss_entries isoformat cutoff src es)")
    case True
    then show ?thesis using Cons.IH by auto
  next
    case False
    then have "a = entry_article isoformat src e
        \<and> \<not> (case published_parsed e of Some pub \<Rightarrow> pub < cutoff | None \<Rightarrow> False)"
      using Cons.prems by (auto simp: Let_def split: if_splits)
    then show ?thesis by (auto split: option.splits)
  qed
qed

text \<open>
  Claim C3, as the code has it. Every item the feed branch emits is the record of one of
  the first \<open>rss_max_articles\<close> entries of a configured feed, and that entry is either
  undated (the record's \<open>published\<close> is then empty) or dated no earlier than 24 hours
  before the current time.
\<close>

theorem fetch_from_rss_recency:
  "a \<in> set (fetch_from_rss isoformat now fetch feeds) \<Longrightarrow>
     \<exists>feed_url fd e. feed_url \<in> set feeds \<and> fetch feed_url = Parsed fd
        \<and> e \<in> set (take rss_max_articles (entries fd))
        \<and> a = entry_article isoformat
                (case feed_title fd of Some t \<Rightarrow> t | None \<Rightarrow> feed_url) e
        \<and> (\<forall>pub. published_parsed e = Some pub \<longrightarrow> now - one_day \<le> pub)
        \<and> (published_parsed e = None \<longrightarrow> published a = [])"
  unfolding fetch_from_rss_def
proof (induction feeds)
  case Nil
  then show ?case by simp
next
  case (Cons u us)
  show ?case
  proof (cases "a \<in> set (rss_feeds_loop isoformat (now - one_day) fetch us)")
    case True
    then show ?thesis using Cons.IH by (metis list.set_intros(2))
  next
    case False
    then obtain fd where fd: "fetch u = Parsed fd"
      and mem: "a \<in> set (rss_entries isoformat (now - one_day)
            (case feed_title fd of Some t \<Rightarrow> t | None \<Rightarrow> u)
            (take rss_max_articles (entries fd)))"
      using Cons.prems by (auto split: parse_result.splits)
    from rss_entries_provenance [OF mem]
    obtain e where "e \<in> set (take rss_max_articles (entries fd))"
      and "a = entry_article isoformat (case feed_title fd of Some t \<Rightarrow> t | None \<Rightarrow> u) e"
      and "\<forall>pub. published_parsed e = Some pub \<longrightarrow> now - one_day \<le> pub"
      by blast
    moreover then have "published_parsed e = None \<longrightarrow> published a = []"
      by (simp add: entry_article_def Let_def)
    ultimately show ?thesis using fd by (metis list.set_intros(1))
  qed
qed


theorem fetch_news_sorted_capped_witness:
  "(2::nat) < 3
   \<and> 3 < length (fetch_news
         [mk_article ''AI one'' ''2024-01-01T10:00:00Z'', mk_article ''AI two'' []]
         [mk_article ''AI three'' ''2024-01-02T10:00:00+00:00'', mk_article ''AI four'' []])
   \<and> published (fetch_news
         [mk_article ''AI one'' ''2024-01-01T10:00:00Z'', mk_article ''AI two'' []]
         [mk_article ''AI three'' ''2024-01-02T10:00:00+00:00'', mk_article ''AI four'' []] ! 2) = []
   \<and> published (fetch_news
         [mk_article ''AI one'' ''2024-01-01T10:00:00Z'', mk_article ''AI two'' []]
         [mk_article ''AI three'' ''2024-01-02T10:00:00+00:00'', mk_article ''AI four'' []] ! 3) = []
   \<and> map title (fetch_news
         [mk_article ''AI one'' ''2024-01-01T10:00:00Z'', mk_article ''AI two'' []]
         [mk_article ''AI three'' ''2024-01-02T10:00:00+00:00'', mk_article ''AI four'' []])
       = [''AI three'', ''AI one'', ''AI two'', ''AI four'']"
proof -
  have e: "fetch_news
         [mk_article ''AI one'' ''2024-01-01T10:00:00Z'', mk_article ''AI two'' []]
         [mk_article ''AI three'' ''2024-01-02T10:00:00+00:00'', mk_article ''AI four'' []]
      = [mk_article ''AI three'' ''2024-01-02T10:00:00+00:00'',
         mk_article ''AI one'' ''2024-01-01T10:00:00Z'',
         mk_article ''AI two'' [], mk_article ''AI four'' []]"
    by code_simp
  show ?thesis
    using fetch_news_sorted_capped
      [of "[mk_article ''AI one'' ''2024-01-01T10:00:00Z'', mk_article ''AI two'' []]"
          "[mk_article ''AI three'' ''2024-01-02T10:00:00+00:00'', mk_article ''AI four'' []]"]
    unfolding e by (simp add: mk_article_def)
qed

theorem fetch_from_rss_recency_witness:
  "\<lparr> title = ''AI chip'', summary = ''New chip'', url = ''https://x/1'', source = ''Feed'',
      published = ''2024-05-03T09:00:00+00:00'', content = ''New chip'', origin = ''rss'' \<rparr>
     \<in> set (fetch_from_rss (\<lambda>t. ''2024-05-03T09:00:00+00:00'') 1714730400000000
         (\<lambda>u. Parsed \<lparr> feed_title = Some ''Feed'', entries =
            [\<lparr> published_parsed = Some 1714554000000000, entry_title = ''Old AI'',
               entry_summary = ''Old news'', entry_description = [],
               entry_link = ''https://x/0'' \<rparr>,
             \<lparr> published_parsed = Some 1714726800000000, entry_title = ''AI chip'',
               entry_summary = ''<p>New chip</p>'', entry_description = [],
               entry_link = ''https://x/1'' \<rparr>] \<rparr>)
         [''https://feed''])
   \<and> (\<exists>feed_url fd e. feed_url \<in> set [''https://feed'']
        \<and> Parsed \<lparr> feed_title = Some ''Feed'', entries =
            [\<lparr> published_parsed = Some 1714554000000000, entry_title = ''Old AI'',
               entry_summary = ''Old news'', entry_description = [],
               entry_link = ''https://x/0'' \<rparr>,
             \<lparr> published_parsed = Some 1714726800000000, entry_title = ''AI chip'',
               entry_summary = ''<p>New chip</p>'', entry_description = [],
               entry_link = ''https://x/1'' \<rparr>] \<rparr> = Parsed fd
        \<and> e \<in> set (take rss_max_articles (entries fd))
        \<and> \<lparr> title = ''AI chip'', summary = ''New chip'', url = ''https://x/1'',
             source = ''Feed'', published = ''2024-05-03T09:00:00+00:00'',
             content = ''New chip'', origin = ''rss'' \<rparr>
            = entry_article (\<lambda>t. ''2024-05-03T09:00:00+00:00'')
                (case feed_title fd of Some t \<Rightarrow> t | None \<Rightarrow> feed_url) e
        \<and> (\<forall>pub. published_parsed e = Some pub \<longrightarrow> 1714730400000000 - one_day \<le> pub)
        \<and> (published_parsed e = None \<longrightarrow>
             published \<lparr> title = ''AI chip'', summary = ''New chip'', url = ''https://x/1'',
               source = ''Feed'', published = ''2024-05-03T09:00:00+00:00'',
               content = ''New chip'', origin = ''rss'' \<rparr> = []))"
proof -
  let ?a = "\<lparr> title = ''AI chip'', summary = ''New chip'', url = ''https://x/1'',
      source = ''Feed'', published = ''2024-05-03T09:00:00+00:00'', content = ''New chip'',
      origin = ''rss'' \<rparr>"
  let ?fetch = "\<lambda>u::string. Parsed \<lparr> feed_title = Some ''Feed'', entries =
            [\<lparr> published_parsed = Some 1714554000000000, entry_title = ''Old AI'',
               entry_summary = ''Old news'', entry_description = [],
               entry_link = ''https://x/0'' \<rparr>,
             \<lparr> published_parsed = Some 1714726800000000, entry_title = ''AI chip'',
               entry_summary = ''<p>New chip</p>'', entry_description = [],
               entry_link = ''https://x/1'' \<rparr>] \<rparr>"
  have e: "fetch_from_rss (\<lambda>t. ''2024-05-03T09:00:00+00:00'') 1714730400000000 ?fetch
      [''https://feed''] = [?a]"
    by code_simp
  then have m: "?a \<in> set (fetch_from_rss (\<lambda>t. ''2024-05-03T09:00:00+00:00'')
      1714730400000000 ?fetch [''https://feed''])"
    by simp
  from m fetch_from_rss_recency [OF m] show ?thesis by (rule conjI)
qed

text \<open>
  The claim as stated fails for undated entries: an entry without a published
  timestamp is emitted, with an empty \<open>published\<close> field.
\<close>

theorem fetch_from_rss_emits_undated:
  "fetch_from_rss (\<lambda>t. ''2024-05-03T09:00:00+00:00'') 1714730400000000
     (\<lambda>u. Parsed \<lparr> feed_title = Some ''Feed'', entries =
        [\<lparr> published_parsed = None, entry_title = ''AI chip'',
           entry_summary = ''<p>New chip</p>'', entry_description = [],
           entry_link = ''https://x/1'' \<rparr>] \<rparr>)
     [''https://feed'']
   = [\<lparr> title = ''AI chip'', summary = ''New chip'', url = ''https://x/1'',
        source = ''Feed'', published = [], content = ''New chip'', origin = ''rss'' \<rparr>]"
  by code_simp



section \<open>Properties of the sources block\<close>

lemma fetched_loop_eq:
  "fetched_loop sources seen arts =
     sources @ map (\<lambda>p. \<lparr> ref_name = Some (fst p), ref_url = Some (snd p) \<rparr>) (new_pairs seen arts)"
  by (induction arts arbitrary: sources seen) auto

lemma new_pairs_urls:
  "snd ` set (new_pairs seen arts) = {url a |a. a \<in> set arts \<and> url a \<noteq> []} - seen"
  by (induction arts arbitrary: seen) auto

lemma new_pairs_distinct: "distinct (map snd (new_pairs seen arts))"
proof (induction arts arbitrary: seen)
  case Nil
  then show ?case by simp
next
  case (Cons a arts)
  have "url a \<notin> snd ` set (new_pairs (insert (url a) seen) arts)"
    by (simp add: new_pairs_urls)
  then show ?case using Cons by simp
qed

lemma new_pairs_from_articles:
  "set (new_pairs seen arts) \<subseteq> (\<lambda>a. (source a, url a)) ` set arts"
  by (induction arts arbitrary: seen) auto

lemma new_pairs_nonempty_url: "p \<in> set (new_pairs seen arts) \<Longrightarrow> snd p \<noteq> []"
  by (induction arts arbitrary: seen) (auto split: if_splits)

lemma listed_pairs_append:
  "listed_pairs (xs @ ys) =
     (case listed_pairs xs of
        Inl e \<Rightarrow> Inl e
      | Inr ps \<Rightarrow> (case listed_pairs ys of Inl e \<Rightarrow> Inl e | Inr qs \<Rightarrow> Inr (ps @ qs)))"
  by (induction xs) (auto split: option.splits sum.splits)

lemma listed_pairs_refs:
  "\<forall>p\<in>set ps. snd p \<noteq> [] \<Longrightarrow>
     listed_pairs (map (\<lambda>p. \<lparr> ref_name = Some (fst p), ref_url = Some (snd p) \<rparr>) ps) = Inr ps"
  by (induction ps) auto

lemma listed_pairs_returned:
  "listed_pairs sources = Inr ms \<Longrightarrow> ms = returned_pairs sources"
  by (induction sources arbitrary: ms)
     (auto simp: returned_pairs_def List.map_filter_simps split: option.splits sum.splits if_splits)

lemma seen_urls_model: "seen_urls sources = Inr seen \<Longrightarrow> seen = model_urls sources"
  by (induction sources arbitrary: seen)
     (auto simp: model_urls_def split: option.splits sum.splits)

lemma sources_listing_pairs:
  assumes "sources_listing sources articles = Inr ps"
  shows "\<exists>fetched. ps = returned_pairs sources @ fetched
     \<and> snd ` set fetched
         = {url a |a. a \<in> set (take 8 articles) \<and> url a \<noteq> []} - model_urls sources
     \<and> set fetched \<subseteq> (\<lambda>a. (source a, url a)) ` set (take 8 articles)
     \<and> distinct (map snd fetched)"
proof -
  obtain seen where seen: "seen_urls sources = Inr seen"
    using assms by (auto simp: sources_listing_def split: sum.splits)
  then have mu: "seen = model_urls sources" by (rule seen_urls_model)
  let ?new = "new_pairs seen (take 8 articles)"
  have l: "listed_pairs (sources @ map (\<lambda>p. \<lparr> ref_name = Some (fst p), ref_url = Some (snd p) \<rparr>) ?new)
      = Inr ps"
    using assms seen by (simp add: sources_listing_def fetched_loop_eq)
  have n: "listed_pairs (map (\<lambda>p. \<lparr> ref_name = Some (fst p), ref_url = Some (snd p) \<rparr>) ?new)
      = Inr ?new"
    by (rule listed_pairs_refs) (simp add: new_pairs_nonempty_url)
  from l n obtain ms where ms: "listed_pairs sources = Inr ms" and ps: "ps = ms @ ?new"
    by (auto simp: listed_pairs_append split: sum.splits)
  have "ps = returned_pairs sources @ ?new"
    using ps listed_pairs_returned [OF ms] by simp
  moreover have "snd ` set ?new
      = {url a |a. a \<in> set (take 8 articles) \<and> url a \<noteq> []} - model_urls sources"
    unfolding mu [symmetric] by (rule new_pairs_urls)
  moreover have "set ?new \<subseteq> (\<lambda>a. (source a, url a)) ` set (take 8 articles)"
    by (rule new_pairs_from_articles)
  moreover have "distinct (map snd ?new)"
    by (rule new_pairs_distinct)
  ultimately show ?thesis by blast
qed


text \<open>
  Claim C5, as the code has it. With sources enabled and the block built without an
  error: when the model returned no sources, the content stays as it was and no block
  is appended. Otherwise the new content is the old one followed by the block, whose
  items are, in this order: the pairs the model returned that have a non-empty URL,
  and then pairs taken from the first 8 fetched articles, whose URLs are exactly the
  non-empty URLs of those articles that are not among the model's URLs, each of them
  once.
\<close>

theorem append_sources_lists:
  assumes "append_sources True content0 sources articles = Inr content1"
  shows "(sources = [] \<longrightarrow> content1 = content0)
     \<and> (sources \<noteq> [] \<longrightarrow>
          (\<exists>ps fetched. sources_listing sources articles = Inr ps
             \<and> content1 = content0 @ sources_block ps
             \<and> ps = returned_pairs sources @ fetched
             \<and> snd ` set fetched
                 = {url a |a. a \<in> set (take 8 articles) \<and> url a \<noteq> []} - model_urls sources
             \<and> set fetched \<subseteq> (\<lambda>a. (source a, url a)) ` set (take 8 articles)
             \<and> distinct (map snd fetched)))"
proof (intro conjI impI)
  assume "sources = []"
  then show "content1 = content0"
    using assms by (simp add: append_sources_def)
next
  assume ne: "sources \<noteq> []"
  obtain ps where ps: "sources_listing sources articles = Inr ps"
    and c: "content1 = content0 @ sources_block ps"
    using assms ne by (auto simp: append_sources_def split: sum.splits)
  from sources_listing_pairs [OF ps] obtain fetched where f:
    "ps = returned_pairs sources @ fetched"
    "snd ` set fetched
         = {url a |a. a \<in> set (take 8 articles) \<and> url a \<noteq> []} - model_urls sources"
    "set fetched \<subseteq> (\<lambda>a. (source a, url a)) ` set (take 8 articles)"
    "distinct (map snd fetched)"
    by blast
  show "\<exists>ps fetched. sources_listing sources articles = Inr ps
             \<and> content1 = content0 @ sources_block ps
             \<and> ps = returned_pairs sources @ fetched
             \<and> snd ` set fetched
                 = {url a |a. a \<in> set (take 8 articles) \<and> url a \<noteq> []} - model_urls sources
             \<and> set fetched \<subseteq> (\<lambda>a. (source a, url a)) ` set (take 8 articles)
             \<and> distinct (map snd fetched)"
    by (rule exI [of _ ps], rule exI [of _ fetched]) (intro conjI ps c f)
qed

theorem append_sources_lists_witness:
  "append_sources True (ustr ''<p>Hi</p>'') [] [wire_article ''v1''] = Inr (ustr ''<p>Hi</p>'')
   \<and> [\<lparr> ref_name = Some ''A'', ref_url = Some ''u'' \<rparr>] \<noteq> []
   \<and> append_sources True (ustr ''<p>Hi</p>'') [\<lparr> ref_name = Some ''A'', ref_url = Some ''u'' \<rparr>]
       [wire_article ''v1'', wire_article ''u'', wire_article ''v1'']
     = Inr (ustr ''<p>Hi</p>'' @ sources_block [(''A'', ''u''), (''Wire'', ''v1'')])
   \<and> sources_listing [\<lparr> ref_name = Some ''A'', ref_url = Some ''u'' \<rparr>]
       [wire_article ''v1'', wire_article ''u'', wire_article ''v1'']
     = Inr [(''A'', ''u''), (''Wire'', ''v1'')]
   \<and> (\<exists>fetched. [(''A'', ''u''), (''Wire'', ''v1'')]
           = returned_pairs [\<lparr> ref_name = Some ''A'', ref_url = Some ''u'' \<rparr>] @ fetched
     \<and> snd ` set fetched
         = {url a |a. a \<in> set (take 8 [wire_article ''v1'', wire_article ''u'',
               wire_article ''v1'']) \<and> url a \<noteq> []}
           - model_urls [\<lparr> ref_name = Some ''A'', ref_url = Some ''u'' \<rparr>]
     \<and> set fetched \<subseteq> (\<lambda>a. (source a, url a))
           ` set (take 8 [wire_article ''v1'', wire_article ''u'', wire_article ''v1''])
     \<and> distinct (map snd fetched))"
proof -
  let ?src = "[\<lparr> ref_name = Some ''A'', ref_url = Some ''u'' \<rparr>]"
  let ?arts = "[wire_article ''v1'', wire_article ''u'', wire_article ''v1'']"
  have z0: "append_sources True (ustr ''<p>Hi</p>'') [] [wire_article ''v1'']
      = Inr (ustr ''<p>Hi</p>'')"
    by (simp add: append_sources_def)
  have "[] = ([] :: source_ref list) \<longrightarrow> ustr ''<p>Hi</p>'' = ustr ''<p>Hi</p>''"
    using append_sources_lists [OF z0] by (rule conjunct1)
  have n: "?src \<noteq> []" by simp
  have l: "sources_listing ?src ?arts = Inr [(''A'', ''u''), (''Wire'', ''v1'')]"
    by code_simp
  have e: "append_sources True (ustr ''<p>Hi</p>'') ?src ?arts
     = Inr (ustr ''<p>Hi</p>'' @ sources_block [(''A'', ''u''), (''Wire'', ''v1'')])"
    by (simp add: append_sources_def l)
  have "?src \<noteq> [] \<longrightarrow>
          (\<exists>ps fetched. sources_listing ?src ?arts = Inr ps
             \<and> ustr ''<p>Hi</p>'' @ sources_block [(''A'', ''u''), (''Wire'', ''v1'')]
                 = ustr ''<p>Hi</p>'' @ sources_block ps
             \<and> ps = returned_pairs ?src @ fetched
             \<and> snd ` set fetched
                 = {url a |a. a \<in> set (take 8 ?arts) \<and> url a \<noteq> []} - model_urls ?src
             \<and> set fetched \<subseteq> (\<lambda>a. (source a, url a)) ` set (take 8 ?arts)
             \<and> distinct (map snd fetched))"
    using append_sources_lists [OF e] by (rule conjunct2)
  then obtain ps fetched where
    p: "sources_listing ?src ?arts = Inr ps"
    and f: "ps = returned_pairs ?src @ fetched"
      "snd ` set fetched = {url a |a. a \<in> set (take 8 ?arts) \<and> url a \<noteq> []} - model_urls ?src"
      "set fetched \<subseteq> (\<lambda>a. (source a, url a)) ` set (take 8 ?arts)"
      "distinct (map snd fetched)"
    using n by blast
  from p l have pe: "ps = [(''A'', ''u''), (''Wire'', ''v1'')]" by simp
  have ex: "\<exists>fetched. [(''A'', ''u''), (''Wire'', ''v1'')] = returned_pairs ?src @ fetched
     \<and> snd ` set fetched = {url a |a. a \<in> set (take 8 ?arts) \<and> url a \<noteq> []} - model_urls ?src
     \<and> set fetched \<subseteq> (\<lambda>a. (source a, url a)) ` set (take 8 ?arts)
     \<and> distinct (map snd fetched)"
    by (rule exI [of _ fetched]) (intro conjI f(1) [unfolded pe] f(2) f(3) f(4))
  show ?thesis by (intro conjI z0 n e l ex)
qed

text \<open>
  The claim as stated fails in four ways. On one list of sources: the model's pair
  with an empty URL is not listed, the URL the model returned twice is listed twice,
  and the URL of the ninth fetched article is not listed although the model did not
  return it. And when the model returns no sources, no block is appended at all, so
  none of the fetched URLs is listed.
\<close>

theorem sources_listing_not_all_once:
  "append_sources True (ustr ''<p>Hi</p>'')
       [\<lparr> ref_name = Some ''A'', ref_url = Some ''u'' \<rparr>,
        \<lparr> ref_name = Some ''B'', ref_url = Some ''u'' \<rparr>,
        \<lparr> ref_name = Some ''C'', ref_url = Some [] \<rparr>] nine_articles
     = Inr (ustr ''<p>Hi</p>'' @ sources_block
           [(''A'', ''u''), (''B'', ''u''), (''Wire'', ''v1''), (''Wire'', ''v2''),
            (''Wire'', ''v3''), (''Wire'', ''v4''), (''Wire'', ''v5''), (''Wire'', ''v6''),
            (''Wire'', ''v7''), (''Wire'', ''v8'')])
   \<and> \<not> distinct (map snd [(''A'', ''u''), (''B'', ''u''), (''Wire'', ''v1''),
            (''Wire'', ''v2''), (''Wire'', ''v3''), (''Wire'', ''v4''), (''Wire'', ''v5''),
            (''Wire'', ''v6''), (''Wire'', ''v7''), (''Wire'', ''v8'')])
   \<and> url (nine_articles ! 8) = ''v9''
   \<and> append_sources True (ustr ''<p>Hi</p>'') [] nine_articles = Inr (ustr ''<p>Hi</p>'')"
proof -
  have a: "sources_listing
       [\<lparr> ref_name = Some ''A'', ref_url = Some ''u'' \<rparr>,
        \<lparr> ref_name = Some ''B'', ref_url = Some ''u'' \<rparr>,
        \<lparr> ref_name = Some ''C'', ref_url = Some [] \<rparr>] nine_articles
     = Inr [(''A'', ''u''), (''B'', ''u''), (''Wire'', ''v1''), (''Wire'', ''v2''),
            (''Wire'', ''v3''), (''Wire'', ''v4''), (''Wire'', ''v5''), (''Wire'', ''v6''),
            (''Wire'', ''v7''), (''Wire'', ''v8'')]"
    by code_simp
  have b: "url (nine_articles ! 8) = ''v9''"
    by code_simp
  have c: "append_sources True (ustr ''<p>Hi</p>'') [] nine_articles = Inr (ustr ''<p>Hi</p>'')"
    by (simp add: append_sources_def)
  show ?thesis using a b c by (simp add: append_sources_def)
qed

section \<open>Properties of the sitemap\<close>

lemma page_entries_failed:
  "snd (page_entries now_iso posts) = (\<exists>p \<in> set posts. post_slug p = None)"
  by (induction posts) (auto simp: Let_def split: option.splits)

lemma fetch_pages_returns:
  "last_page backend n \<Longrightarrow> page \<le> n \<Longrightarrow> \<exists>r. fetch_pages backend now_iso page slugs = Some r"
proof (induction "nat (n - page)" arbitrary: page slugs)
  case 0
  then have "page = n" by simp
  then show ?case using 0(2)
    by (subst fetch_pages.simps)
       (auto simp: last_page_def Let_def page_entries_failed split: page_reply.splits)
next
  case (Suc k)
  show ?case
  proof (cases "last_page backend page")
    case True
    then show ?thesis
      by (subst fetch_pages.simps)
         (auto simp: last_page_def Let_def page_entries_failed split: page_reply.splits)
  next
    case False
    have "\<exists>r. fetch_pages backend now_iso (page + 1)
        (slugs @ fst (page_entries now_iso (page_posts (case backend page of Reply s d \<Rightarrow> d)))) = Some r"
      using Suc by (intro Suc(1)) auto
    then show ?thesis using False
      by (subst fetch_pages.simps)
         (auto simp: last_page_def Let_def page_entries_failed split: page_reply.splits)
  qed
qed

lemma fetch_all_slugs_returns:
  "last_page backend n \<Longrightarrow> 1 \<le> n \<Longrightarrow> \<exists>r. fetch_all_slugs backend now_iso = Some r"
  unfolding fetch_all_slugs_def by (rule fetch_pages_returns)


lemma blog_loc_inj: "inj (\<lambda>sl. site_base_url @ ''/blog/'' @ sl)"
  by (rule injI) simp

lemma inject_new_slug_slugs:
  "set (map entry_slug (inject_new_slug new_slug today listing))
     = set (map entry_slug listing)
       \<union> (case new_slug of None \<Rightarrow> {} | Some ns \<Rightarrow> if ns = [] then {} else {ns})"
  by (auto simp: inject_new_slug_def split: option.splits)

lemma inject_new_slug_distinct:
  "distinct (map entry_slug listing)
     \<Longrightarrow> distinct (map entry_slug (inject_new_slug new_slug today listing))"
  by (auto simp: inject_new_slug_def split: option.splits)

lemma inject_new_slug_front:
  "ns \<noteq> [] \<Longrightarrow> ns \<notin> set (map entry_slug listing)
     \<Longrightarrow> inject_new_slug (Some ns) today listing
         = \<lparr> entry_slug = ns, entry_updated = today \<rparr> # listing"
  by (auto simp: inject_new_slug_def)

text \<open>
  Claim C6, as the code has it. When the listing has been fetched, the sitemap has the
  home page entry first and exactly once, followed by one entry per record of the
  listing, in order, preceded by an entry for the new slug when that slug is given,
  non-empty and absent from the listing. Its slugs are those of the listing and the
  non-empty new slug, and no location occurs twice provided no slug occurs twice in
  the fetched listing.
\<close>

theorem sitemap_entries_one_per_record:
  assumes "fetch_all_slugs backend now_iso = Some listing"
  shows "\<exists>es. sitemap_entries backend now_iso today new_slug = Some es
     \<and> map loc es = (site_base_url @ ''/'')
          # map (\<lambda>sl. site_base_url @ ''/blog/'' @ sl)
              (map entry_slug (inject_new_slug new_slug today listing))
     \<and> length (filter (\<lambda>e. loc e = site_base_url @ ''/'') es) = 1
     \<and> set (map entry_slug (inject_new_slug new_slug today listing))
          = set (map entry_slug listing)
            \<union> (case new_slug of None \<Rightarrow> {} | Some ns \<Rightarrow> if ns = [] then {} else {ns})
     \<and> (distinct (map entry_slug listing) \<longrightarrow> distinct (map loc es))
     \<and> (\<forall>ns. new_slug = Some ns \<and> ns \<noteq> [] \<and> ns \<notin> set (map entry_slug listing)
          \<longrightarrow> es ! 1 = post_entry \<lparr> entry_slug = ns, entry_updated = today \<rparr>
              \<and> tl (tl es) = map post_entry listing)"
proof -
  let ?inj = "inject_new_slug new_slug today listing"
  let ?es = "sitemap_urls today ?inj"
  have e: "sitemap_entries backend now_iso today new_slug = Some ?es"
    using assms by (simp add: sitemap_entries_def)
  have locs: "map loc ?es = (site_base_url @ ''/'')
          # map (\<lambda>sl. site_base_url @ ''/blog/'' @ sl) (map entry_slug ?inj)"
    by (simp add: sitemap_urls_def home_entry_def post_entry_def comp_def)
  have "filter (\<lambda>e. loc e = site_base_url @ ''/'') (map post_entry ?inj) = []"
    by (simp add: filter_empty_conv post_entry_def)
  then have one: "length (filter (\<lambda>e. loc e = site_base_url @ ''/'') ?es) = 1"
    by (simp add: sitemap_urls_def home_entry_def)
  have dist: "distinct (map entry_slug listing) \<longrightarrow> distinct (map loc ?es)"
  proof
    assume "distinct (map entry_slug listing)"
    then have "distinct (map entry_slug ?inj)" by (rule inject_new_slug_distinct)
    then have "distinct (map (\<lambda>sl. site_base_url @ ''/blog/'' @ sl) (map entry_slug ?inj))"
      by (simp add: distinct_map inj_on_def del: map_map)
    moreover have "site_base_url @ ''/''
        \<notin> set (map (\<lambda>sl. site_base_url @ ''/blog/'' @ sl) (map entry_slug ?inj))"
      by auto
    ultimately show "distinct (map loc ?es)" unfolding locs by simp
  qed
  have front: "\<forall>ns. new_slug = Some ns \<and> ns \<noteq> [] \<and> ns \<notin> set (map entry_slug listing)
          \<longrightarrow> ?es ! 1 = post_entry \<lparr> entry_slug = ns, entry_updated = today \<rparr>
              \<and> tl (tl ?es) = map post_entry listing"
    by (auto simp: sitemap_urls_def inject_new_slug_def)
  show ?thesis
    by (rule exI [of _ ?es]) (intro conjI e locs one inject_new_slug_slugs dist front)
qed


theorem sitemap_entries_one_per_record_witness:
  "fetch_all_slugs backend_one_page ''2024-05-03T10:00:00.123456''
     = Some [\<lparr> entry_slug = ''b'', entry_updated = ''2024-05-01'' \<rparr>]
   \<and> distinct (map entry_slug [\<lparr> entry_slug = ''b'', entry_updated = ''2024-05-01'' \<rparr>])
   \<and> ''a'' \<noteq> []
   \<and> ''a'' \<notin> set (map entry_slug [\<lparr> entry_slug = ''b'', entry_updated = ''2024-05-01'' \<rparr>])
   \<and> (\<exists>es. sitemap_entries backend_one_page ''2024-05-03T10:00:00.123456'' ''2024-05-03''
            (Some ''a'') = Some es
        \<and> map loc es = [''https://saurabhjha.co.in/'', ''https://saurabhjha.co.in/blog/a'',
                          ''https://saurabhjha.co.in/blog/b'']
        \<and> distinct (map loc es)
        \<and> es ! 1 = post_entry \<lparr> entry_slug = ''a'', entry_updated = ''2024-05-03'' \<rparr>)"
proof -
  have e: "fetch_all_slugs backend_one_page ''2024-05-03T10:00:00.123456''
     = Some [\<lparr> entry_slug = ''b'', entry_updated = ''2024-05-01'' \<rparr>]"
    by code_simp
  have i: "inject_new_slug (Some ''a'') ''2024-05-03''
      [\<lparr> entry_slug = ''b'', entry_updated = ''2024-05-01'' \<rparr>]
     = [\<lparr> entry_slug = ''a'', entry_updated = ''2024-05-03'' \<rparr>,
        \<lparr> entry_slug = ''b'', entry_updated = ''2024-05-01'' \<rparr>]"
    by (simp add: inject_new_slug_def)
  show ?thesis
    using sitemap_entries_one_per_record [OF e, of "''2024-05-03''" "Some ''a''"] e
    unfolding i by (auto simp: site_base_url_def)
qed

text \<open>
  The claim as stated fails on a listing that repeats a slug (here the second page
  starts with the post the first page ended with): the sitemap then has two entries for
  it. And an empty new slug is not injected.
\<close>

theorem sitemap_repeats_listed_slug:
  "map_option (map loc)
     (sitemap_entries backend_shifted ''2024-05-03T10:00:00.123456'' ''2024-05-03'' (Some ''a''))
     = Some [''https://saurabhjha.co.in/'', ''https://saurabhjha.co.in/blog/a'',
             ''https://saurabhjha.co.in/blog/a'']
   \<and> sitemap_entries (\<lambda>p. RequestFailed) ''2024-05-03T10:00:00.123456'' ''2024-05-03''
       (Some []) = Some [home_entry ''2024-05-03'']"
proof -
  have a: "map_option (map loc)
     (sitemap_entries backend_shifted ''2024-05-03T10:00:00.123456'' ''2024-05-03'' (Some ''a''))
     = Some [''https://saurabhjha.co.in/'', ''https://saurabhjha.co.in/blog/a'',
             ''https://saurabhjha.co.in/blog/a'']"
    by code_simp
  have b: "sitemap_entries (\<lambda>p. RequestFailed) ''2024-05-03T10:00:00.123456'' ''2024-05-03''
       (Some []) = Some [home_entry ''2024-05-03'']"
    by code_simp
  show ?thesis using a b by (rule conjI)
qed



section \<open>Properties of the indexer, the publisher and the run\<close>

lemma get_or_create_indexnow_key_state:
  "calls (snd (get_or_create_indexnow_key w s)) = calls s"
  by (simp add: get_or_create_indexnow_key_def Let_def split: option.splits)

lemma get_or_create_indexnow_key_raises:
  "fst (get_or_create_indexnow_key w s) = Inl e \<Longrightarrow> get_or_create_indexnow_key w s = (Inl e, s)"
  by (auto simp: get_or_create_indexnow_key_def Let_def split: option.splits if_splits)

lemma submit_indexnow_key_error:
  "fst (get_or_create_indexnow_key w s) = Inl e \<Longrightarrow> submit_indexnow w u s = (Inl e, s)"
  by (simp add: submit_indexnow_def get_or_create_indexnow_key_raises)

lemma submit_to_google_key_error:
  "fst (get_or_create_indexnow_key w s) = Inl e \<Longrightarrow> submit_to_google w u s = (Inl e, s)"
  by (simp add: submit_to_google_def submit_indexnow_key_error)

lemma submit_indexnow_sends:
  assumes "get_or_create_indexnow_key w s = (Inr key, s1)"
  shows "submit_indexnow w u s =
     (Inr (indexnow_reply w = PingResponse 200 \<or> indexnow_reply w = PingResponse 202),
      s1\<lparr> calls := calls s @ [IndexNowCall site_host key
                                   (site_base_url @ ''/'' @ key @ ''.txt'') u] \<rparr>)"
proof -
  have c: "calls s1 = calls s"
    using get_or_create_indexnow_key_state [of w s] assms by simp
  show ?thesis
    by (auto simp: submit_indexnow_def assms c Let_def split: ping_outcome.splits exn.splits)
qed

lemma ping_google_sitemap_calls:
  "calls (snd (ping_google_sitemap w s)) = calls s @ [GooglePing (site_base_url @ ''/sitemap.xml'')]"
  by (auto simp: ping_google_sitemap_def Let_def split: ping_outcome.splits exn.splits)

lemma ping_google_sitemap_result:
  "fst (ping_google_sitemap w s) = (google_reply w = PingResponse 200)"
  by (auto simp: ping_google_sitemap_def Let_def split: ping_outcome.splits exn.splits)

lemma ping_bing_sitemap_calls:
  "calls (snd (ping_bing_sitemap w s)) = calls s @ [BingPing (site_base_url @ ''/sitemap.xml'')]"
  by (auto simp: ping_bing_sitemap_def Let_def split: ping_outcome.splits)

lemma ping_bing_sitemap_result:
  "fst (ping_bing_sitemap w s) = (bing_reply w = PingResponse 200)"
  by (auto simp: ping_bing_sitemap_def Let_def split: ping_outcome.splits)

text \<open>
  When the key can be fetched, \<open>submit_to_google\<close> sends all three requests, in order,
  whatever the replies are, and its result is true exactly when at least one of the
  three succeeded; a 403 from IndexNow fails that method only.
\<close>

lemma submit_to_google_attempts_all:
  assumes "get_or_create_indexnow_key w s = (Inr key, s1)"
  shows "fst (submit_to_google w u s) =
       Inr ((indexnow_reply w = PingResponse 200 \<or> indexnow_reply w = PingResponse 202)
            \<or> google_reply w = PingResponse 200 \<or> bing_reply w = PingResponse 200)
   \<and> calls (snd (submit_to_google w u s)) =
       calls s @ [IndexNowCall site_host key (site_base_url @ ''/'' @ key @ ''.txt'') u,
                  GooglePing (site_base_url @ ''/sitemap.xml''),
                  BingPing (site_base_url @ ''/sitemap.xml'')]
   \<and> (indexnow_reply w = PingResponse 403 \<longrightarrow>
        fst (submit_indexnow w u s) = Inr False
        \<and> fst (submit_to_google w u s) =
            Inr (google_reply w = PingResponse 200 \<or> bing_reply w = PingResponse 200))"
proof -
  let ?s2 = "s1\<lparr> calls := calls s @ [IndexNowCall site_host key
                                   (site_base_url @ ''/'' @ key @ ''.txt'') u] \<rparr>"
  have i: "submit_indexnow w u s =
     (Inr (indexnow_reply w = PingResponse 200 \<or> indexnow_reply w = PingResponse 202), ?s2)"
    by (rule submit_indexnow_sends [OF assms])
  have g: "ping_google_sitemap w ?s2 =
     (fst (ping_google_sitemap w ?s2), snd (ping_google_sitemap w ?s2))"
    by simp
  have r: "submit_to_google w u s =
     (Inr ((indexnow_reply w = PingResponse 200 \<or> indexnow_reply w = PingResponse 202)
           \<or> fst (ping_google_sitemap w ?s2)
           \<or> fst (ping_bing_sitemap w (snd (ping_google_sitemap w ?s2)))),
      snd (ping_bing_sitemap w (snd (ping_google_sitemap w ?s2))))"
    by (simp add: submit_to_google_def i Let_def split: prod.splits)
  show ?thesis
    unfolding r i
    by (simp add: ping_google_sitemap_calls ping_google_sitemap_result
          ping_bing_sitemap_calls ping_bing_sitemap_result)
qed

lemma get_jwt_token_login_fails:
  assumes "cached_token s = None"
    and "(\<exists>t. login_reply w = LoginResponse 401 t) \<or> login_reply w = LoginRaises ConnectionError
         \<or> login_reply w = LoginRaises Timeout"
  shows "get_jwt_token w s = (None, s\<lparr> calls := calls s @ [LoginCall] \<rparr>)"
  using assms by (auto simp: get_jwt_token_def falsy_def Let_def)

lemma publish_article_login_fails:
  assumes "cached_token s = None"
    and "(\<exists>t. login_reply w = LoginResponse 401 t) \<or> login_reply w = LoginRaises ConnectionError
         \<or> login_reply w = LoginRaises Timeout"
  shows "publish_article w article s = (None, article, s\<lparr> calls := calls s @ [LoginCall] \<rparr>)"
  by (simp add: publish_article_def get_jwt_token_login_fails [OF assms])

text \<open>
  Claim C4. When no token is cached and the login call fails with HTTP 401, a
  connection failure or a timeout, \<open>publish_article\<close> returns no URL, leaves the post
  as it was and sends no request but the login; the run does not complete, sends no
  creation request and leaves the ledger file as it was, and a run that got as far as
  the publisher ends as a failed publication.
\<close>

theorem login_failure_aborts:
  assumes "cached_token s = None"
    and "(\<exists>t. login_reply w = LoginResponse 401 t) \<or> login_reply w = LoginRaises ConnectionError
         \<or> login_reply w = LoginRaises Timeout"
  shows "publish_article w article s = (None, article, s\<lparr> calls := calls s @ [LoginCall] \<rparr>)
    \<and> fst (run w s) \<noteq> Completed
    \<and> ledger_file (snd (run w s)) = ledger_file s
    \<and> (calls (snd (run w s)) = calls s \<or> calls (snd (run w s)) = calls s @ [LoginCall])
    \<and> (\<forall>result. fetch_news (world_newsapi_articles w) (world_rss_articles w) \<noteq> []
          \<and> generate_article (world_today w) (groq_reply w)
                (fetch_news (world_newsapi_articles w) (world_rss_articles w)) = Inr (Some result)
          \<and> post_slug_field result \<notin> load_published_slugs s
        \<longrightarrow> run w s = (PublishFailed, s\<lparr> calls := calls s @ [LoginCall] \<rparr>))"
proof -
  note p = publish_article_login_fails [OF assms]
  have r: "run w s = (NoArticles, s) \<or> (\<exists>e. run w s = (Raised e, s))
      \<or> run w s = (GenerationFailed, s) \<or> run w s = (AlreadyPublished, s)
      \<or> run w s = (PublishFailed, s\<lparr> calls := calls s @ [LoginCall] \<rparr>)"
    by (simp add: run_def Let_def p falsy_def split: sum.splits option.splits)
  have reach: "\<forall>result. fetch_news (world_newsapi_articles w) (world_rss_articles w) \<noteq> []
          \<and> generate_article (world_today w) (groq_reply w)
                (fetch_news (world_newsapi_articles w) (world_rss_articles w)) = Inr (Some result)
          \<and> post_slug_field result \<notin> load_published_slugs s
        \<longrightarrow> run w s = (PublishFailed, s\<lparr> calls := calls s @ [LoginCall] \<rparr>)"
    by (simp add: run_def Let_def p falsy_def)
  from r have "fst (run w s) \<noteq> Completed" by auto
  moreover from r have "ledger_file (snd (run w s)) = ledger_file s" by auto
  moreover from r have "calls (snd (run w s)) = calls s \<or> calls (snd (run w s)) = calls s @ [LoginCall]"
    by auto
  ultimately show ?thesis using p reach by blast
qed

text \<open>
  Claim C2. When the slug of the generated post is in the ledger loaded at the start
  of the run, the run ends before the publisher is called: no request is sent, and the
  state, the ledger file included, is unchanged.
\<close>

theorem run_skips_published_slug:
  assumes "fetch_news (world_newsapi_articles w) (world_rss_articles w) \<noteq> []"
    and "generate_article (world_today w) (groq_reply w)
           (fetch_news (world_newsapi_articles w) (world_rss_articles w)) = Inr (Some result)"
    and "post_slug_field result \<in> load_published_slugs s"
  shows "run w s = (AlreadyPublished, s)
    \<and> calls (snd (run w s)) = calls s
    \<and> ledger_file (snd (run w s)) = ledger_file s"
  using assms by (simp add: run_def Let_def)

text \<open>
  Claim C10. Once a token has been obtained, \<open>publish_article\<close> sends the post without
  its \<open>"_meta"\<close> block. Unless the creation call answers 201, the caller's post is
  left without the block and nothing is returned; the block is back in the post only
  after a 201 whose body could be read.
\<close>

theorem publish_article_strips_meta:
  assumes "fst (get_jwt_token w s) = Some token" and "token \<noteq> []"
  shows "((\<forall>readable. create_reply w \<noteq> CreateResponse 201 readable) \<longrightarrow>
            fst (snd (publish_article w article s)) = article\<lparr> post_meta := None \<rparr>
            \<and> fst (publish_article w article s) = None)
    \<and> (post_meta (fst (snd (publish_article w article s))) \<noteq> None \<longrightarrow>
            create_reply w = CreateResponse 201 True)
    \<and> (create_reply w = CreateResponse 201 True \<longrightarrow>
            fst (snd (publish_article w article s))
              = article\<lparr> post_meta :=
                    Some (case post_meta article of Some m \<Rightarrow> m | None \<Rightarrow> empty_meta) \<rparr>)
    \<and> (\<exists>cs. calls (snd (snd (publish_article w article s)))
            = cs @ [CreateCall token (article\<lparr> post_meta := None \<rparr>)])"
proof -
  obtain s1 where g: "get_jwt_token w s = (Some token, s1)"
    using assms(1) by (cases "get_jwt_token w s") auto
  show ?thesis
    using assms(2)
    by (auto simp: publish_article_def g Let_def save_local_backup_def
             split: create_outcome.splits exn.splits)
qed



lemma sample_fetch:
  "fetch_news (world_newsapi_articles sample_world) (world_rss_articles sample_world)
     = [mk_article ''AI one'' ''2024-01-01T10:00:00Z'']"
  by code_simp

lemma sample_generate:
  "generate_article (world_today sample_world) (groq_reply sample_world)
     [mk_article ''AI one'' ''2024-01-01T10:00:00Z''] = Inr (Some sample_post)"
  by code_simp

lemma submit_to_google_attempts_all_example:
  "submit_to_google sample_world ''https://saurabhjha.co.in/blog/hello-world'' sample_state
     = (Inr True,
        sample_state\<lparr> key_file := Some ''0123456789abcdef0123456789abcdef01234567'',
          calls :=
            [IndexNowCall ''saurabhjha.co.in'' ''0123456789abcdef0123456789abcdef01234567''
               ''https://saurabhjha.co.in/0123456789abcdef0123456789abcdef01234567.txt''
               ''https://saurabhjha.co.in/blog/hello-world'',
             GooglePing ''https://saurabhjha.co.in/sitemap.xml'',
             BingPing ''https://saurabhjha.co.in/sitemap.xml''] \<rparr>)"
  by code_simp

text \<open>
  Claim C9, where the code departs from it. The key file exists and cannot be read,
  and every search engine would answer 200. \<open>get_or_create_indexnow_key\<close> is called
  before the \<open>try\<close> of \<open>submit_indexnow\<close>, so the error of \<open>read_text\<close> leaves
  \<open>submit_indexnow\<close> and \<open>submit_to_google\<close>: no request is sent, neither the IndexNow
  submission nor the Google ping nor the Bing ping, and no result is returned. In a run
  the exception leaves \<open>run\<close> after the post has been created.
\<close>

theorem submit_to_google_key_file_unreadable:
  "submit_to_google
       (sample_world\<lparr> key_readable := False, indexnow_reply := PingResponse 200,
                      bing_reply := PingResponse 200 \<rparr>)
       ''https://saurabhjha.co.in/blog/hello-world''
       (sample_state\<lparr> key_file := Some ''0123456789abcdef0123456789abcdef01234567'' \<rparr>)
     = (Inl OSError,
        sample_state\<lparr> key_file := Some ''0123456789abcdef0123456789abcdef01234567'' \<rparr>)
   \<and> calls (snd (submit_to_google
       (sample_world\<lparr> key_readable := False, indexnow_reply := PingResponse 200,
                      bing_reply := PingResponse 200 \<rparr>)
       ''https://saurabhjha.co.in/blog/hello-world''
       (sample_state\<lparr> key_file := Some ''0123456789abcdef0123456789abcdef01234567'' \<rparr>)))
     = []
   \<and> fst (run
       (sample_world\<lparr> login_reply := LoginResponse 200 (Some ''tok''),
                      create_reply := CreateResponse 201 True,
                      key_readable := False, indexnow_reply := PingResponse 200,
                      bing_reply := PingResponse 200 \<rparr>)
       (sample_state\<lparr> key_file := Some ''0123456789abcdef0123456789abcdef01234567'' \<rparr>))
     = Raised OSError
   \<and> calls (snd (run
       (sample_world\<lparr> login_reply := LoginResponse 200 (Some ''tok''),
                      create_reply := CreateResponse 201 True,
                      key_readable := False, indexnow_reply := PingResponse 200,
                      bing_reply := PingResponse 200 \<rparr>)
       (sample_state\<lparr> key_file := Some ''0123456789abcdef0123456789abcdef01234567'' \<rparr>)))
     = [LoginCall, CreateCall ''tok'' (sample_post\<lparr> post_meta := None \<rparr>)]"
proof -
  have a: "submit_to_google
       (sample_world\<lparr> key_readable := False, indexnow_reply := PingResponse 200,
                      bing_reply := PingResponse 200 \<rparr>)
       ''https://saurabhjha.co.in/blog/hello-world''
       (sample_state\<lparr> key_file := Some ''0123456789abcdef0123456789abcdef01234567'' \<rparr>)
     = (Inl OSError,
        sample_state\<lparr> key_file := Some ''0123456789abcdef0123456789abcdef01234567'' \<rparr>)"
    by code_simp
  have b: "calls (sample_state\<lparr> key_file :=
      Some ''0123456789abcdef0123456789abcdef01234567'' \<rparr>) = []"
    by (simp add: sample_state_def)
  have c: "fst (run
       (sample_world\<lparr> login_reply := LoginResponse 200 (Some ''tok''),
                      create_reply := CreateResponse 201 True,
                      key_readable := False, indexnow_reply := PingResponse 200,
                      bing_reply := PingResponse 200 \<rparr>)
       (sample_state\<lparr> key_file := Some ''0123456789abcdef0123456789abcdef01234567'' \<rparr>))
     = Raised OSError"
    by code_simp
  have d: "calls (snd (run
       (sample_world\<lparr> login_reply := LoginResponse 200 (Some ''tok''),
                      create_reply := CreateResponse 201 True,
                      key_readable := False, indexnow_reply := PingResponse 200,
                      bing_reply := PingResponse 200 \<rparr>)
       (sample_state\<lparr> key_file := Some ''0123456789abcdef0123456789abcdef01234567'' \<rparr>)))
     = [LoginCall, CreateCall ''tok'' (sample_post\<lparr> post_meta := None \<rparr>)]"
    by code_simp
  show ?thesis unfolding a using b c d by simp
qed

theorem login_failure_aborts_witness:
  "cached_token sample_state = None
   \<and> login_reply sample_world = LoginResponse 401 None
   \<and> fetch_news (world_newsapi_articles sample_world) (world_rss_articles sample_world) \<noteq> []
   \<and> generate_article (world_today sample_world) (groq_reply sample_world)
        (fetch_news (world_newsapi_articles sample_world) (world_rss_articles sample_world))
      = Inr (Some sample_post)
   \<and> post_slug_field sample_post \<notin> load_published_slugs sample_state
   \<and> publish_article sample_world sample_post sample_state
      = (None, sample_post, sample_state\<lparr> calls := [LoginCall] \<rparr>)
   \<and> run sample_world sample_state = (PublishFailed, sample_state\<lparr> calls := [LoginCall] \<rparr>)
   \<and> ledger_file (snd (run sample_world sample_state)) = ledger_file sample_state"
proof -
  have a1: "cached_token sample_state = None" by (simp add: sample_state_def)
  have a2: "(\<exists>t. login_reply sample_world = LoginResponse 401 t)
      \<or> login_reply sample_world = LoginRaises ConnectionError
      \<or> login_reply sample_world = LoginRaises Timeout"
    by (simp add: sample_world_def)
  have l: "login_reply sample_world = LoginResponse 401 None" by (simp add: sample_world_def)
  have n: "post_slug_field sample_post \<notin> load_published_slugs sample_state"
    by (simp add: load_published_slugs_def sample_state_def)
  have c: "calls sample_state = []" by (simp add: sample_state_def)
  show ?thesis
    using login_failure_aborts [OF a1 a2, of sample_post] a1 l n
    unfolding sample_fetch sample_generate c by simp
qed

theorem run_skips_published_slug_witness:
  "fetch_news (world_newsapi_articles sample_world) (world_rss_articles sample_world) \<noteq> []
   \<and> generate_article (world_today sample_world) (groq_reply sample_world)
        (fetch_news (world_newsapi_articles sample_world) (world_rss_articles sample_world))
      = Inr (Some sample_post)
   \<and> post_slug_field sample_post
        \<in> load_published_slugs (sample_state\<lparr> ledger_file := Some {''hello-world''} \<rparr>)
   \<and> run sample_world (sample_state\<lparr> ledger_file := Some {''hello-world''} \<rparr>)
      = (AlreadyPublished, sample_state\<lparr> ledger_file := Some {''hello-world''} \<rparr>)
   \<and> calls (snd (run sample_world (sample_state\<lparr> ledger_file := Some {''hello-world''} \<rparr>)))
      = []"
proof -
  have f: "fetch_news (world_newsapi_articles sample_world) (world_rss_articles sample_world) \<noteq> []"
    by (simp add: sample_fetch)
  have g: "generate_article (world_today sample_world) (groq_reply sample_world)
        (fetch_news (world_newsapi_articles sample_world) (world_rss_articles sample_world))
      = Inr (Some sample_post)"
    by (simp add: sample_fetch sample_generate)
  have m: "post_slug_field sample_post
        \<in> load_published_slugs (sample_state\<lparr> ledger_file := Some {''hello-world''} \<rparr>)"
    by (simp add: load_published_slugs_def sample_post_def)
  have c: "calls (sample_state\<lparr> ledger_file := Some {''hello-world''} \<rparr>) = []"
    by (simp add: sample_state_def)
  show ?thesis
    using run_skips_published_slug [OF f g m] f g m c by simp
qed



theorem publish_article_strips_meta_witness:
  "fst (get_jwt_token (sample_world\<lparr> login_reply := LoginResponse 200 (Some ''tok'') \<rparr>)
          sample_state) = Some ''tok''
   \<and> ''tok'' \<noteq> []
   \<and> (\<forall>readable. create_reply (sample_world\<lparr> login_reply := LoginResponse 200 (Some ''tok'') \<rparr>)
          \<noteq> CreateResponse 201 readable)
   \<and> fst (snd (publish_article (sample_world\<lparr> login_reply := LoginResponse 200 (Some ''tok'') \<rparr>)
          sample_post sample_state)) = sample_post\<lparr> post_meta := None \<rparr>
   \<and> fst (publish_article (sample_world\<lparr> login_reply := LoginResponse 200 (Some ''tok'') \<rparr>)
          sample_post sample_state) = None
   \<and> post_meta sample_post \<noteq> None"
proof -
  let ?w = "sample_world\<lparr> login_reply := LoginResponse 200 (Some ''tok'') \<rparr>"
  have t: "fst (get_jwt_token ?w sample_state) = Some ''tok''"
    by (simp add: get_jwt_token_def sample_world_def sample_state_def falsy_def)
  have ne: "''tok'' \<noteq> []" by simp
  have c: "\<forall>readable. create_reply ?w \<noteq> CreateResponse 201 readable"
    by (simp add: sample_world_def)
  have m: "post_meta sample_post \<noteq> None" by (simp add: sample_post_def)
  have "(\<forall>readable. create_reply ?w \<noteq> CreateResponse 201 readable) \<longrightarrow>
            fst (snd (publish_article ?w sample_post sample_state))
              = sample_post\<lparr> post_meta := None \<rparr>
            \<and> fst (publish_article ?w sample_post sample_state) = None"
    using publish_article_strips_meta [OF t ne, of sample_post] by (rule conjunct1)
  then have ab: "fst (snd (publish_article ?w sample_post sample_state))
              = sample_post\<lparr> post_meta := None \<rparr>
            \<and> fst (publish_article ?w sample_post sample_state) = None"
    using c by (rule mp)
  show ?thesis
    by (intro conjI t ne c m conjunct1 [OF ab] conjunct2 [OF ab])
qed



end
